theory Spec2Isabelle
  imports Complex_Main
begin

section \<open>Numbers and vectors\<close>

text \<open>
  JavaScript numbers are modelled as the real numbers: every finite double is a real, and
  the model computes without rounding, without \<open>NaN\<close> and without infinities. Where HOL's
  total functions differ from the JavaScript ones (division by zero, the square root of a
  negative number) the theorems below either show that the case does not arise or assume
  the input that excludes it. Array indices and counters are natural numbers; a frame
  index that has gone through a subtraction is an integer.

  A 3-vector (a JavaScript array of three numbers) is a triple.
\<close>

type_synonym vec3 = "real \<times> real \<times> real"

text \<open>\<open>Math.hypot(x, y, z)\<close>, also reached as \<open>Math.hypot(...u)\<close> on a 3-vector.\<close>

definition hypot3 :: "vec3 \<Rightarrow> real" where
  "hypot3 u = (case u of (x, y, z) \<Rightarrow> sqrt (x * x + y * y + z * z))"

text \<open>
  The remainder operator \<open>x % y\<close> of JavaScript on numbers: the quotient is truncated
  towards zero, so the result carries the sign of the dividend \<open>x\<close>.
\<close>

definition js_trunc :: "real \<Rightarrow> int" where
  "js_trunc x = (if 0 \<le> x then \<lfloor>x\<rfloor> else \<lceil>x\<rceil>)"

definition js_rem :: "real \<Rightarrow> real \<Rightarrow> real" where
  "js_rem x y = x - y * of_int (js_trunc (x / y))"

text \<open>\<open>Math.atan2(y, x)\<close> on finite arguments (signed zeros are not distinguished).\<close>

definition js_atan2 :: "real \<Rightarrow> real \<Rightarrow> real" where
  "js_atan2 y x =
     (if 0 < x then arctan (y / x)
      else if x < 0 \<and> 0 \<le> y then arctan (y / x) + pi
      else if x < 0 then arctan (y / x) - pi
      else if 0 < y then pi / 2
      else if y < 0 then - (pi / 2)
      else 0)"

section \<open>Kepler solver (Scene3D.jsx)\<close>

text \<open>
  \<^verbatim>\<open>
  function keplerE(M, e) {
    let E = M;
    for (let k = 0; k < 8; k++) {
      const f = E - e * Math.sin(E) - M;
      const fp = 1 - e * Math.cos(E);
      E -= f / fp;
    }
    return E;
  }
  \<close>
  The two constants of the loop body are \<open>keplerE_f\<close> and \<open>keplerE_fp\<close>, the body is
  \<open>keplerE_body\<close>, and the \<open>for\<close> loop is \<open>keplerE_loop\<close>, which carries the counter
  \<open>k\<close>.
\<close>

definition keplerE_f :: "real \<Rightarrow> real \<Rightarrow> real \<Rightarrow> real" where
  "keplerE_f M e E = E - e * sin E - M"

definition keplerE_fp :: "real \<Rightarrow> real \<Rightarrow> real" where
  "keplerE_fp e E = 1 - e * cos E"

definition keplerE_body :: "real \<Rightarrow> real \<Rightarrow> real \<Rightarrow> real" where
  "keplerE_body M e E = E - keplerE_f M e E / keplerE_fp e E"

function keplerE_loop :: "nat \<Rightarrow> real \<Rightarrow> real \<Rightarrow> real \<Rightarrow> real" where
  "keplerE_loop k M e E =
     (if k < 8 then keplerE_loop (k + 1) M e (keplerE_body M e E) else E)"
  by pat_completeness auto
termination
  by (relation "measure (\<lambda>(k, M, e, E). 8 - k)") auto

definition keplerE :: "real \<Rightarrow> real \<Rightarrow> real" where
  "keplerE M e = keplerE_loop 0 M e M"

text \<open>
  In HOL \<open>x / 0 = 0\<close>; in JavaScript \<open>f / fp\<close> with \<open>fp = 0\<close> is an infinity or \<open>NaN\<close>,
  after which \<open>E\<close> is not a finite number and stays so (the sine and cosine of an
  infinity are \<open>NaN\<close>). \<open>keplerE_finite\<close> is the same loop with that outcome made
  explicit: \<open>None\<close> when some update divides by zero, the finite result otherwise.
\<close>

function keplerE_finite_loop :: "nat \<Rightarrow> real \<Rightarrow> real \<Rightarrow> real \<Rightarrow> real option" where
  "keplerE_finite_loop k M e E =
     (if k < 8
      then (if keplerE_fp e E = 0 then None
            else keplerE_finite_loop (k + 1) M e (keplerE_body M e E))
      else Some E)"
  by pat_completeness auto
termination
  by (relation "measure (\<lambda>(k, M, e, E). 8 - k)") auto

definition keplerE_finite :: "real \<Rightarrow> real \<Rightarrow> real option" where
  "keplerE_finite M e = keplerE_finite_loop 0 M e M"

text \<open>
  \<^verbatim>\<open>
  function elementsToPositionAU({ a, e, i, Omega, omega, M }) {
    const E = keplerE(M, e);
    const cosE = Math.cos(E), sinE = Math.sin(E);
    const nu = Math.atan2(Math.sqrt(1 - e*e) * sinE, cosE - e);
    const r_orb = a * (1 - e * cosE);
    const x_orb = r_orb * Math.cos(nu), y_orb = r_orb * Math.sin(nu);
    const cosO = Math.cos(Omega), sinO = Math.sin(Omega);
    const cosi = Math.cos(i),     sini = Math.sin(i);
    const cosw = Math.cos(omega), sinw = Math.sin(omega);
    const X1 = cosw * x_orb - sinw * y_orb;
    const Y1 = sinw * x_orb + cosw * y_orb;
    const X2 = X1;
    const Y2 = cosi * Y1;
    const Z2 = sini * Y1;
    const x = cosO * X2 - sinO * Y2;
    const y = sinO * X2 + cosO * Y2;
    const z = Z2;
    return [x, y, z];
  }
  \<close>
  The argument object is the record \<open>elements\<close>; its fields carry the prefix \<open>el_\<close>.
  Everything after the first line of the function is \<open>position_from_E\<close>.
\<close>

record elements =
  el_a :: real
  el_e :: real
  el_i :: real
  el_Omega :: real
  el_omega :: real
  el_M :: real

definition position_from_E :: "elements \<Rightarrow> real \<Rightarrow> vec3" where
  "position_from_E el E =
     (let cosE = cos E; sinE = sin E;
          nu = js_atan2 (sqrt (1 - el_e el * el_e el) * sinE) (cosE - el_e el);
          r_orb = el_a el * (1 - el_e el * cosE);
          x_orb = r_orb * cos nu; y_orb = r_orb * sin nu;
          cosO = cos (el_Omega el); sinO = sin (el_Omega el);
          cosi = cos (el_i el); sini = sin (el_i el);
          cosw = cos (el_omega el); sinw = sin (el_omega el);
          X1 = cosw * x_orb - sinw * y_orb;
          Y1 = sinw * x_orb + cosw * y_orb;
          X2 = X1;
          Y2 = cosi * Y1;
          Z2 = sini * Y1;
          x = cosO * X2 - sinO * Y2;
          y = sinO * X2 + cosO * Y2;
          z = Z2
      in (x, y, z))"

definition elementsToPositionAU :: "elements \<Rightarrow> vec3" where
  "elementsToPositionAU el = position_from_E el (keplerE (el_M el) (el_e el))"

subsection \<open>Planets: what is handed to the solver\<close>

text \<open>
  \<^verbatim>\<open>
  function Planets({ planets, tDays, scaleAU = 1.5, planetColors, showLabels, eccScale = 1 }) {
    const mu = 0.0002959122082855911; // AU^3/day^2
    const rad = Math.PI / 180;
    ... planets.map((p) => {
        const eVis = Math.min(p.e * eccScale, 0.9);
        const n = Math.sqrt(mu / Math.pow(p.a, 3));
        const M = (p.M0 * rad + n * tDays) % (2 * Math.PI);
        const rAU = elementsToPositionAU({ a: p.a, e: eVis, i: p.i*rad, Omega: p.Omega*rad,
                                           omega: p.omega*rad, M });
        const r = rAU.map((v) => v * scaleAU);
        const path = [...Array(360)].map((_, k) => {
          const th = (2 * Math.PI * k) / 360;
          const rtmp = elementsToPositionAU({ ..., e: eVis, ..., M: th });
          return rtmp.map((v) => v * scaleAU);
        });
  \<close>
  A catalogue entry \<open>p\<close> is the record \<open>planet\<close> (fields with the prefix \<open>pl_\<close>, angles
  in degrees). The local constants of \<open>Planets\<close> are the definitions \<open>Planets_mu\<close>,
  \<open>Planets_rad\<close>, \<open>Planets_eVis\<close>, \<open>Planets_n\<close> and \<open>Planets_M\<close>; the object built
  for \<open>elementsToPositionAU\<close> is \<open>Planets_elements\<close>. The rendering of the result is
  not modelled.
\<close>

record planet =
  pl_name :: string
  pl_a :: real
  pl_e :: real
  pl_i :: real
  pl_Omega :: real
  pl_omega :: real
  pl_M0 :: real

definition Planets_mu :: real where
  "Planets_mu = 2959122082855911 / 10 ^ 19"

definition Planets_rad :: real where
  "Planets_rad = pi / 180"

definition Planets_eVis :: "planet \<Rightarrow> real \<Rightarrow> real" where
  "Planets_eVis p eccScale = min (pl_e p * eccScale) 0.9"

definition Planets_n :: "planet \<Rightarrow> real" where
  "Planets_n p = sqrt (Planets_mu / pl_a p ^ 3)"

definition Planets_M :: "planet \<Rightarrow> real \<Rightarrow> real" where
  "Planets_M p tDays = js_rem (pl_M0 p * Planets_rad + Planets_n p * tDays) (2 * pi)"

definition Planets_elements :: "planet \<Rightarrow> real \<Rightarrow> real \<Rightarrow> elements" where
  "Planets_elements p tDays eccScale =
     \<lparr>el_a = pl_a p, el_e = Planets_eVis p eccScale, el_i = pl_i p * Planets_rad,
      el_Omega = pl_Omega p * Planets_rad, el_omega = pl_omega p * Planets_rad,
      el_M = Planets_M p tDays\<rparr>"

definition scale_vec :: "real \<Rightarrow> vec3 \<Rightarrow> vec3" where
  "scale_vec scaleAU u = (case u of (x, y, z) \<Rightarrow> (x * scaleAU, y * scaleAU, z * scaleAU))"

definition Planets_r :: "planet \<Rightarrow> real \<Rightarrow> real \<Rightarrow> real \<Rightarrow> vec3" where
  "Planets_r p tDays scaleAU eccScale =
     scale_vec scaleAU (elementsToPositionAU (Planets_elements p tDays eccScale))"

definition Planets_path :: "planet \<Rightarrow> real \<Rightarrow> real \<Rightarrow> real \<Rightarrow> vec3 list" where
  "Planets_path p tDays scaleAU eccScale =
     map (\<lambda>k. let th = (2 * pi * real k) / 360
              in scale_vec scaleAU
                   (elementsToPositionAU ((Planets_elements p tDays eccScale)\<lparr>el_M := th\<rparr>)))
         [0..<360]"

section \<open>Rollout analytics (App.jsx)\<close>

subsection \<open>Frames and station-keeping errors\<close>

text \<open>
  A frame of a rollout is an object with the fields \<open>r\<close> and \<open>v\<close> (3-vectors) and the
  optional fields \<open>thrust\<close>, \<open>reward\<close>, \<open>pos_err\<close> and \<open>v_tan_err\<close>; an absent
  (\<open>undefined\<close> or \<open>null\<close>) field is \<open>None\<close>. The fields carry the prefix \<open>f_\<close>.
  Every frame has \<open>r\<close> and \<open>v\<close> with three numbers each, as the rollout format has
  them; a frame without them, on which the callback below would throw a \<open>TypeError\<close>,
  is not a value of the type. The fields of the object that \<open>stationKeepingErrors\<close>
  returns carry the prefix \<open>sk_\<close>.
  \<^verbatim>\<open>
  function stationKeepingErrors(frame, R0 = 1.0) {
    if (!frame) return null;
    const r = frame.r, v = frame.v;
    const rmag = Math.hypot(r[0], r[1], r[2]);
    const r_hat = [r[0]/(rmag+1e-9), r[1]/(rmag+1e-9), r[2]/(rmag+1e-9)];
    const v_rad = v[0]*r_hat[0] + v[1]*r_hat[1] + v[2]*r_hat[2];
    const vmag = Math.hypot(v[0], v[1], v[2]);
    const v_tan = Math.sqrt(Math.max(0, vmag*vmag - v_rad*v_rad));
    const mu = 1.0;
    const v_circ = Math.sqrt(mu / Math.max(1e-9, R0));
    return { rmag, pos_err: rmag - R0, v_rad, v_tan, v_tan_err: v_tan - v_circ, v_circ };
  }
  \<close>
\<close>

record frame =
  f_r :: vec3
  f_v :: vec3
  f_thrust :: "vec3 option"
  f_reward :: "real option"
  f_pos_err :: "real option"
  f_v_tan_err :: "real option"

record sk_errors =
  sk_rmag :: real
  sk_pos_err :: real
  sk_v_rad :: real
  sk_v_tan :: real
  sk_v_tan_err :: real
  sk_v_circ :: real

definition stationKeepingErrors :: "frame option \<Rightarrow> real \<Rightarrow> sk_errors option" where
  "stationKeepingErrors frame R0 =
     (case frame of
        None \<Rightarrow> None
      | Some fr \<Rightarrow>
          (case (f_r fr, f_v fr) of
             ((r0, r1, r2), (v0, v1, v2)) \<Rightarrow>
               (let rmag = hypot3 (r0, r1, r2);
                    r_hat0 = r0 / (rmag + 1 / 10 ^ 9);
                    r_hat1 = r1 / (rmag + 1 / 10 ^ 9);
                    r_hat2 = r2 / (rmag + 1 / 10 ^ 9);
                    v_rad = v0 * r_hat0 + v1 * r_hat1 + v2 * r_hat2;
                    vmag = hypot3 (v0, v1, v2);
                    v_tan = sqrt (max 0 (vmag * vmag - v_rad * v_rad));
                    mu = 1;
                    v_circ = sqrt (mu / max (1 / 10 ^ 9) R0)
                in Some \<lparr>sk_rmag = rmag, sk_pos_err = rmag - R0, sk_v_rad = v_rad,
                         sk_v_tan = v_tan, sk_v_tan_err = v_tan - v_circ,
                         sk_v_circ = v_circ\<rparr>)))"

subsection \<open>The per-episode pass of useRollout\<close>

text \<open>
  \<^verbatim>\<open>
  function useRollout(url, tolR = 0.05, tolV = 0.05, thrustSpike = 0.02) {
    ...
        const mets = eps.map((frames) => {
          let rewardSum = 0;
          let fuelSum = 0;
          let capturedAt = null;
          let inTolCount = 0;
          const events = [];
          const spark = { reward: [], fuel: [], posErr: [], vTanErr: [] };

          const K = 30; // consecutive frames to declare capture
          let tolStreak = 0;
          let seenOut = false;

          frames.forEach((f, idx) => {
            const thr = f.thrust ? Math.hypot(...f.thrust) : 0;
            const posErr = f.pos_err ?? (Math.hypot(...f.r) - 1.0);
            const vtanErr = f.v_tan_err ?? (() => {
              const er = stationKeepingErrors(f, 1.0);
              return er?.v_tan_err ?? 0;
            })();

            rewardSum += (f.reward ?? 0);
            fuelSum += thr;
            if (thr > thrustSpike) events.push({ t: idx, type: "thrust" });

            const inTol = posErr <= tolR && Math.abs(vtanErr) <= tolV;
            if (inTol) {
              inTolCount++;
              tolStreak++;
              if (seenOut && capturedAt == null && tolStreak >= K) {
                capturedAt = idx - K + 1;
                events.push({ t: capturedAt, type: "entered_tol" });
              }
            } else {
              tolStreak = 0;
              seenOut = true;
            }

            spark.reward.push({ x: idx, y: f.reward ?? 0 });
            spark.fuel.push({ x: idx, y: thr });
            spark.posErr.push({ x: idx, y: posErr });
            spark.vTanErr.push({ x: idx, y: vtanErr });
          });

          const len = frames.length;
          const pctInTol = len > 0 ? inTolCount / len : 0;

          return { rewardSum, fuelSum, capturedAt, events, len, pctInTol, spark };
        });
  \<close>
  The variables that the callback of \<open>forEach\<close> mutates are the record \<open>pass_state\<close>;
  the constants of the callback are \<open>thr\<close>, \<open>posErr\<close>, \<open>vtanErr\<close> and \<open>inTol\<close>; the
  callback is \<open>forEach_callback\<close> and \<open>forEach\<close> itself is \<open>forEach_from\<close>, which
  carries the index. The callback of \<open>eps.map\<close> is \<open>episode_metrics\<close>; the fields of
  the object it returns carry the prefix \<open>res_\<close>, and \<open>eps.map\<close> itself is
  \<open>useRollout_mets\<close>. The parameters
  \<open>tolR\<close>, \<open>tolV\<close> and \<open>thrustSpike\<close> of the hook are parameters of the model; every
  caller in the repository leaves them at their defaults \<open>0.05\<close>, \<open>0.05\<close>, \<open>0.02\<close>.
\<close>

datatype event_type = Thrust | EnteredTol

record event =
  ev_t :: int
  ev_type :: event_type

record spark_lines =
  spark_reward :: "(nat \<times> real) list"
  spark_fuel :: "(nat \<times> real) list"
  spark_posErr :: "(nat \<times> real) list"
  spark_vTanErr :: "(nat \<times> real) list"

record pass_state =
  rewardSum :: real
  fuelSum :: real
  capturedAt :: "int option"
  inTolCount :: nat
  events :: "event list"
  spark :: spark_lines
  tolStreak :: nat
  seenOut :: bool

record episode_result =
  res_rewardSum :: real
  res_fuelSum :: real
  res_capturedAt :: "int option"
  res_events :: "event list"
  res_len :: nat
  res_pctInTol :: real
  res_spark :: spark_lines

definition K :: nat where
  "K = 30"

text \<open>The object literals \<open>{ t: idx, type: "thrust" }\<close> and
  \<open>{ t: capturedAt, type: "entered_tol" }\<close>.\<close>

definition thrust_event :: "nat \<Rightarrow> event" where
  "thrust_event idx = \<lparr>ev_t = int idx, ev_type = Thrust\<rparr>"

definition entered_tol_event :: "int \<Rightarrow> event" where
  "entered_tol_event c = \<lparr>ev_t = c, ev_type = EnteredTol\<rparr>"

definition thr :: "frame \<Rightarrow> real" where
  "thr f = (case f_thrust f of Some u \<Rightarrow> hypot3 u | None \<Rightarrow> 0)"

definition posErr :: "frame \<Rightarrow> real" where
  "posErr f = (case f_pos_err f of Some pe \<Rightarrow> pe | None \<Rightarrow> hypot3 (f_r f) - 1)"

definition vtanErr :: "frame \<Rightarrow> real" where
  "vtanErr f =
     (case f_v_tan_err f of
        Some ve \<Rightarrow> ve
      | None \<Rightarrow> (case stationKeepingErrors (Some f) 1 of
                   None \<Rightarrow> 0
                 | Some er \<Rightarrow> sk_v_tan_err er))"

definition reward_or_0 :: "frame \<Rightarrow> real" where
  "reward_or_0 f = (case f_reward f of Some x \<Rightarrow> x | None \<Rightarrow> 0)"

definition inTol :: "real \<Rightarrow> real \<Rightarrow> frame \<Rightarrow> bool" where
  "inTol tolR tolV f \<longleftrightarrow> posErr f \<le> tolR \<and> \<bar>vtanErr f\<bar> \<le> tolV"

definition initial_state :: pass_state where
  "initial_state =
     \<lparr>rewardSum = 0, fuelSum = 0, capturedAt = None, inTolCount = 0, events = [],
      spark = \<lparr>spark_reward = [], spark_fuel = [], spark_posErr = [], spark_vTanErr = []\<rparr>,
      tolStreak = 0, seenOut = False\<rparr>"

definition push_thrust :: "real \<Rightarrow> nat \<Rightarrow> frame \<Rightarrow> pass_state \<Rightarrow> pass_state" where
  "push_thrust thrustSpike idx f s =
     (if thr f > thrustSpike
      then s\<lparr>events := events s @ [thrust_event idx]\<rparr>
      else s)"

definition track_tolerance :: "real \<Rightarrow> real \<Rightarrow> nat \<Rightarrow> frame \<Rightarrow> pass_state \<Rightarrow> pass_state" where
  "track_tolerance tolR tolV idx f s =
     (if inTol tolR tolV f
      then (let s1 = s\<lparr>inTolCount := inTolCount s + 1, tolStreak := tolStreak s + 1\<rparr>
            in if seenOut s1 \<and> capturedAt s1 = None \<and> tolStreak s1 \<ge> K
               then s1\<lparr>capturedAt := Some (int idx - int K + 1),
                       events := events s1 @ [entered_tol_event (int idx - int K + 1)]\<rparr>
               else s1)
      else s\<lparr>tolStreak := 0, seenOut := True\<rparr>)"

definition push_spark :: "nat \<Rightarrow> frame \<Rightarrow> pass_state \<Rightarrow> pass_state" where
  "push_spark idx f s =
     s\<lparr>spark := \<lparr>spark_reward = spark_reward (spark s) @ [(idx, reward_or_0 f)],
                  spark_fuel = spark_fuel (spark s) @ [(idx, thr f)],
                  spark_posErr = spark_posErr (spark s) @ [(idx, posErr f)],
                  spark_vTanErr = spark_vTanErr (spark s) @ [(idx, vtanErr f)]\<rparr>\<rparr>"

definition forEach_callback ::
    "real \<Rightarrow> real \<Rightarrow> real \<Rightarrow> nat \<Rightarrow> frame \<Rightarrow> pass_state \<Rightarrow> pass_state" where
  "forEach_callback tolR tolV thrustSpike idx f s =
     push_spark idx f
       (track_tolerance tolR tolV idx f
          (push_thrust thrustSpike idx f
             (s\<lparr>rewardSum := rewardSum s + reward_or_0 f, fuelSum := fuelSum s + thr f\<rparr>)))"

fun forEach_from ::
    "real \<Rightarrow> real \<Rightarrow> real \<Rightarrow> nat \<Rightarrow> frame list \<Rightarrow> pass_state \<Rightarrow> pass_state" where
  "forEach_from tolR tolV thrustSpike idx [] s = s"
| "forEach_from tolR tolV thrustSpike idx (f # fs) s =
     forEach_from tolR tolV thrustSpike (idx + 1) fs
       (forEach_callback tolR tolV thrustSpike idx f s)"

definition episode_metrics :: "real \<Rightarrow> real \<Rightarrow> real \<Rightarrow> frame list \<Rightarrow> episode_result" where
  "episode_metrics tolR tolV thrustSpike frames =
     (let s = forEach_from tolR tolV thrustSpike 0 frames initial_state;
          len = length frames;
          pctInTol = (if len > 0 then real (inTolCount s) / real len else 0)
      in \<lparr>res_rewardSum = rewardSum s, res_fuelSum = fuelSum s, res_capturedAt = capturedAt s,
          res_events = events s, res_len = len, res_pctInTol = pctInTol,
          res_spark = spark s\<rparr>)"

definition useRollout_mets ::
    "real \<Rightarrow> real \<Rightarrow> real \<Rightarrow> frame list list \<Rightarrow> episode_result list" where
  "useRollout_mets tolR tolV thrustSpike eps = map (episode_metrics tolR tolV thrustSpike) eps"

section \<open>Notions used to state the properties\<close>

subsection \<open>Capture\<close>

text \<open>
  The streak of an episode prefix is the number of in-tolerance frames at its end.
  At frame \<open>idx\<close> the last \<open>K\<close> frames are all in tolerance (\<open>in_tol_run\<close>), an
  out-of-tolerance frame has been seen (\<open>out_seen\<close>); a frame where both hold is a
  \<open>capture_frame\<close>.
\<close>

definition streak :: "real \<Rightarrow> real \<Rightarrow> frame list \<Rightarrow> nat" where
  "streak tolR tolV frames = length (takeWhile (inTol tolR tolV) (rev frames))"

definition in_tol_run :: "real \<Rightarrow> real \<Rightarrow> frame list \<Rightarrow> nat \<Rightarrow> bool" where
  "in_tol_run tolR tolV frames idx \<longleftrightarrow>
     K \<le> Suc idx \<and> (\<forall>j \<in> {Suc idx - K..idx}. inTol tolR tolV (frames ! j))"

definition out_seen :: "real \<Rightarrow> real \<Rightarrow> frame list \<Rightarrow> nat \<Rightarrow> bool" where
  "out_seen tolR tolV frames idx \<longleftrightarrow> (\<exists>j \<in> {0..idx}. \<not> inTol tolR tolV (frames ! j))"

definition capture_frame :: "real \<Rightarrow> real \<Rightarrow> frame list \<Rightarrow> nat \<Rightarrow> bool" where
  "capture_frame tolR tolV frames idx \<longleftrightarrow>
     out_seen tolR tolV frames idx \<and> in_tol_run tolR tolV frames idx"

subsection \<open>Order of events\<close>

text \<open>
  The frame at which the pass pushed an event: a thrust event carries that frame as its
  index, a tolerance event carries the index \<open>K - 1\<close> frames earlier.
\<close>

definition detected_at :: "event \<Rightarrow> int" where
  "detected_at ev =
     (case ev_type ev of Thrust \<Rightarrow> ev_t ev | EnteredTol \<Rightarrow> ev_t ev + int K - 1)"

definition detection_order :: "event \<Rightarrow> event \<Rightarrow> bool" where
  "detection_order x y \<longleftrightarrow>
     detected_at x < detected_at y
     \<or> (detected_at x = detected_at y \<and> ev_type x = Thrust \<and> ev_type y = EnteredTol)"

subsection \<open>Example frames and episodes\<close>

text \<open>
  A frame on the unit circle at circular speed, a frame at twice the target radius, and
  the first with a burn of magnitude \<open>0.03\<close>; none has precomputed fields.
\<close>

definition frame_on_target :: frame where
  "frame_on_target =
     \<lparr>f_r = (1, 0, 0), f_v = (0, 1, 0), f_thrust = None, f_reward = None,
      f_pos_err = None, f_v_tan_err = None\<rparr>"

definition frame_far :: frame where
  "frame_far =
     \<lparr>f_r = (2, 0, 0), f_v = (0, 1, 0), f_thrust = None, f_reward = None,
      f_pos_err = None, f_v_tan_err = None\<rparr>"

definition frame_burn :: frame where
  "frame_burn = frame_on_target\<lparr>f_thrust := Some (0.03, 0, 0)\<rparr>"

definition out_then_in_episode :: "frame list" where
  "out_then_in_episode = replicate 50 frame_far @ replicate 50 frame_on_target"

definition late_burn_episode :: "frame list" where
  "late_burn_episode = frame_far # replicate 29 frame_on_target @ [frame_burn]"

text \<open>
  A frame with a burn of magnitude \<open>0.01\<close>; a frame one thousandth of the target radius
  from the origin; a frame at half the target radius whose precomputed \<open>pos_err\<close> is the
  distance from the target radius, \<open>0.5\<close>; and episodes built from these.
\<close>

definition frame_small_burn :: frame where
  "frame_small_burn = frame_on_target\<lparr>f_thrust := Some (0.01, 0, 0)\<rparr>"

definition frame_near_origin :: frame where
  "frame_near_origin =
     \<lparr>f_r = (1 / 1000, 0, 0), f_v = (0, 1, 0), f_thrust = None, f_reward = None,
      f_pos_err = None, f_v_tan_err = None\<rparr>"

definition frame_flagged :: frame where
  "frame_flagged =
     \<lparr>f_r = (1 / 2, 0, 0), f_v = (0, 1, 0), f_thrust = None, f_reward = None,
      f_pos_err = Some (1 / 2), f_v_tan_err = Some 0\<rparr>"

definition forty_percent_episode :: "frame list" where
  "forty_percent_episode = replicate 40 frame_on_target @ replicate 60 frame_far"

definition burn_episode :: "frame list" where
  "burn_episode = [frame_burn, frame_small_burn, frame_on_target]"

text \<open>
  The Earth of the built-in catalogue of \<open>loadPlanets\<close>, the same planet with a mean
  anomaly at epoch of \<open>-90\<close> degrees, and with the eccentricity \<open>0.25\<close>.
\<close>

definition planet_earth :: planet where
  "planet_earth =
     \<lparr>pl_name = ''Earth'', pl_a = 1, pl_e = 0.0167, pl_i = 0, pl_Omega = - 11.26,
      pl_omega = 102.947, pl_M0 = 100.464\<rparr>"

definition planet_behind :: planet where
  "planet_behind = planet_earth\<lparr>pl_M0 := - 90\<rparr>"

definition planet_eccentric :: planet where
  "planet_eccentric = planet_earth\<lparr>pl_e := 0.25\<rparr>"

section \<open>The fixed iteration budget of the solver\<close>

lemma keplerE_loop_funpow:
  "keplerE_loop k M e E = (keplerE_body M e ^^ (8 - k)) E"
proof (induction k M e E rule: keplerE_loop.induct)
  case (1 k M e E)
  show ?case
  proof (cases "k < 8")
    case True
    then have "8 - k = Suc (8 - (k + 1))" by simp
    then have "(keplerE_body M e ^^ (8 - k)) E
                 = (keplerE_body M e ^^ (8 - (k + 1))) (keplerE_body M e E)"
      by (simp only: funpow_Suc_right o_apply)
    with True "1.IH" show ?thesis by (simp del: keplerE_loop.simps add: keplerE_loop.simps [of k])
  next
    case False
    then show ?thesis by simp
  qed
qed

text \<open>
  Claim C8. For every mean anomaly \<open>M\<close> and eccentricity \<open>e\<close>, \<open>keplerE\<close> returns the
  eighth iterate of the Newton--Raphson update \<open>E \<mapsto> E - f / fp\<close> for
  \<open>f = E - e sin E - M\<close>, \<open>fp = 1 - e cos E\<close>, started at the seed \<open>E = M\<close>; entered
  with counter \<open>k\<close>, the loop applies the update \<open>8 - k\<close> times whatever the values of
  \<open>M\<close>, \<open>e\<close> and \<open>E\<close> are: there is no convergence test and no early exit.
\<close>

theorem keplerE_eight_iterations:
  "keplerE M e = (keplerE_body M e ^^ 8) M
   \<and> keplerE_loop k M e E = (keplerE_body M e ^^ (8 - k)) E
   \<and> keplerE_body M e E = E - (E - e * sin E - M) / (1 - e * cos E)"
  by (simp add: keplerE_def keplerE_loop_funpow keplerE_body_def keplerE_f_def keplerE_fp_def
        del: keplerE_loop.simps)

section \<open>The Newton denominator\<close>

lemma keplerE_fp_lower: "0 \<le> e \<Longrightarrow> 1 - e \<le> keplerE_fp e E"
proof -
  assume e: "0 \<le> e"
  have c: "cos E \<le> 1" by simp
  have "e * cos E \<le> e * 1" using c e by (rule mult_left_mono)
  then show ?thesis by (simp add: keplerE_fp_def)
qed

lemma keplerE_finite_loop_Some:
  assumes "\<forall>E. keplerE_fp e E \<noteq> 0"
  shows "keplerE_finite_loop k M e E = Some (keplerE_loop k M e E)"
  using assms
proof (induction k M e E rule: keplerE_loop.induct)
  case (1 k M e E)
  show ?case
  proof (cases "k < 8")
    case True
    with "1.IH" "1.prems" show ?thesis
      by (simp del: keplerE_loop.simps keplerE_finite_loop.simps
            add: keplerE_loop.simps [of k] keplerE_finite_loop.simps [of k])
  next
    case False
    then show ?thesis by simp
  qed
qed

text \<open>With \<open>e = 1\<close> and \<open>M = 0\<close> the first update already divides by zero.\<close>

lemma keplerE_finite_parabolic: "keplerE_finite 0 1 = None"
  by (simp add: keplerE_finite_def keplerE_fp_def)

text \<open>
  Claim C9. For an eccentricity \<open>0 \<le> e < 1\<close> and every mean anomaly \<open>M\<close>, the
  denominator \<open>fp = 1 - e cos E\<close> is at least \<open>1 - e > 0\<close> at each of the eight
  iterations (indeed at every \<open>E\<close>), so no update divides by zero and \<open>keplerE\<close>
  returns a finite number.
\<close>

theorem keplerE_denominator_positive:
  "0 \<le> e \<Longrightarrow> e < 1 \<Longrightarrow>
     0 < 1 - e
     \<and> (\<forall>k<8. 1 - e \<le> keplerE_fp e ((keplerE_body M e ^^ k) M)
             \<and> keplerE_fp e ((keplerE_body M e ^^ k) M) \<noteq> 0)
     \<and> (\<forall>E. 1 - e \<le> keplerE_fp e E)
     \<and> keplerE_finite M e = Some (keplerE M e)"
proof -
  assume e: "0 \<le> e" "e < 1"
  have low: "1 - e \<le> keplerE_fp e E" for E
    using e(1) by (rule keplerE_fp_lower)
  have pos: "0 < 1 - e" using e(2) by simp
  have nz: "keplerE_fp e E \<noteq> 0" for E
    using low [of E] pos by linarith
  then have "keplerE_finite M e = Some (keplerE M e)"
    unfolding keplerE_finite_def keplerE_def by (intro keplerE_finite_loop_Some) blast
  with low pos nz show ?thesis by blast
qed

theorem keplerE_denominator_positive_witness:
  "(0::real) \<le> 1 / 2 \<and> (1::real) / 2 < 1
   \<and> 1 - 1 / 2 \<le> keplerE_fp (1 / 2) ((keplerE_body 1 (1 / 2) ^^ 7) 1)
   \<and> keplerE_fp (1 / 2) ((keplerE_body 1 (1 / 2) ^^ 7) 1) \<noteq> 0
   \<and> keplerE_finite 1 (1 / 2) = Some (keplerE 1 (1 / 2))"
proof -
  have h: "(0::real) \<le> 1 / 2" "(1::real) / 2 < 1" by simp_all
  note inst = keplerE_denominator_positive [OF h, of 1]
  from inst
  have every: "\<forall>k<8. 1 - 1 / 2 \<le> keplerE_fp (1 / 2) ((keplerE_body 1 (1 / 2) ^^ k) 1)
                    \<and> keplerE_fp (1 / 2) ((keplerE_body 1 (1 / 2) ^^ k) 1) \<noteq> 0"
    by (rule conjunct1 [OF conjunct2])
  have "(7::nat) < 8" by simp
  with every have "1 - 1 / 2 \<le> keplerE_fp (1 / 2) ((keplerE_body 1 (1 / 2) ^^ 7) 1)
                    \<and> keplerE_fp (1 / 2) ((keplerE_body 1 (1 / 2) ^^ 7) 1) \<noteq> 0"
    by blast
  moreover from inst have "keplerE_finite 1 (1 / 2) = Some (keplerE 1 (1 / 2))"
    by blast
  ultimately show ?thesis using h by blast
qed

section \<open>The forward pass: what the loop variables hold\<close>

lemma forEach_from_snoc:
  "forEach_from tolR tolV thrustSpike idx (fs @ [f]) s =
     forEach_callback tolR tolV thrustSpike (idx + length fs) f
       (forEach_from tolR tolV thrustSpike idx fs s)"
  by (induction fs arbitrary: idx s) simp_all

lemma callback_fields:
  "tolStreak (forEach_callback tolR tolV thrustSpike idx f s) =
     (if inTol tolR tolV f then tolStreak s + 1 else 0)"
  "seenOut (forEach_callback tolR tolV thrustSpike idx f s) =
     (seenOut s \<or> \<not> inTol tolR tolV f)"
  "inTolCount (forEach_callback tolR tolV thrustSpike idx f s) =
     (if inTol tolR tolV f then inTolCount s + 1 else inTolCount s)"
  "rewardSum (forEach_callback tolR tolV thrustSpike idx f s) = rewardSum s + reward_or_0 f"
  "fuelSum (forEach_callback tolR tolV thrustSpike idx f s) = fuelSum s + thr f"
  "capturedAt (forEach_callback tolR tolV thrustSpike idx f s) =
     (if inTol tolR tolV f \<and> seenOut s \<and> capturedAt s = None \<and> K \<le> tolStreak s + 1
      then Some (int idx - int K + 1) else capturedAt s)"
  by (simp_all add: forEach_callback_def push_spark_def track_tolerance_def push_thrust_def Let_def)

lemma pass_counters:
  "tolStreak (forEach_from tolR tolV thrustSpike 0 fs initial_state) = streak tolR tolV fs
   \<and> seenOut (forEach_from tolR tolV thrustSpike 0 fs initial_state)
       = (\<exists>f \<in> set fs. \<not> inTol tolR tolV f)
   \<and> inTolCount (forEach_from tolR tolV thrustSpike 0 fs initial_state)
       = length (filter (inTol tolR tolV) fs)"
proof (induction fs rule: rev_induct)
  case Nil
  show ?case by (simp add: initial_state_def streak_def)
next
  case (snoc f fs)
  then show ?case
    by (auto simp add: forEach_from_snoc callback_fields streak_def)
qed

lemma streak_window:
  "k \<le> length (takeWhile P (rev fs)) \<longleftrightarrow>
     k \<le> length fs \<and> (\<forall>j. length fs - k \<le> j \<and> j < length fs \<longrightarrow> P (fs ! j))"
proof (induction fs arbitrary: k rule: rev_induct)
  case Nil
  show ?case by simp
next
  case (snoc f fs)
  show ?case
  proof (cases k)
    case 0
    then show ?thesis by auto
  next
    case (Suc k')
    show ?thesis
    proof (cases "P f")
      case False
      then show ?thesis using Suc by (auto intro: exI [of _ "length fs"])
    next
      case True
      have "(\<forall>j. length fs - k' \<le> j \<and> j < Suc (length fs) \<longrightarrow> P ((fs @ [f]) ! j))
            \<longleftrightarrow> (\<forall>j. length fs - k' \<le> j \<and> j < length fs \<longrightarrow> P (fs ! j))"
        using True by (auto simp add: nth_append less_Suc_eq)
      then show ?thesis using True Suc snoc.IH [of k'] by simp
    qed
  qed
qed


lemma K_pos: "0 < K"
  by (simp add: K_def)

lemma capture_frame_append:
  "idx < length fs \<Longrightarrow> capture_frame tolR tolV (fs @ gs) idx = capture_frame tolR tolV fs idx"
  by (simp add: capture_frame_def out_seen_def in_tol_run_def nth_append)

lemma out_seen_all:
  "out_seen tolR tolV (fs @ [f]) (length fs) \<longleftrightarrow> (\<exists>g \<in> set (fs @ [f]). \<not> inTol tolR tolV g)"
proof -
  have "(\<exists>g \<in> set (fs @ [f]). \<not> inTol tolR tolV g)
        \<longleftrightarrow> (\<exists>j < length (fs @ [f]). \<not> inTol tolR tolV ((fs @ [f]) ! j))"
    by (metis in_set_conv_nth)
  also have "\<dots> \<longleftrightarrow> out_seen tolR tolV (fs @ [f]) (length fs)"
    by (auto simp add: out_seen_def less_Suc_eq_le)
  finally show ?thesis by simp
qed

lemma in_tol_run_streak:
  "in_tol_run tolR tolV (fs @ [f]) (length fs) \<longleftrightarrow> K \<le> streak tolR tolV (fs @ [f])"
proof -
  have "K \<le> streak tolR tolV (fs @ [f]) \<longleftrightarrow>
          K \<le> length (fs @ [f])
          \<and> (\<forall>j. length (fs @ [f]) - K \<le> j \<and> j < length (fs @ [f])
                 \<longrightarrow> inTol tolR tolV ((fs @ [f]) ! j))"
    unfolding streak_def by (rule streak_window)
  also have "\<dots> \<longleftrightarrow> in_tol_run tolR tolV (fs @ [f]) (length fs)"
    by (auto simp add: in_tol_run_def less_Suc_eq_le)
  finally show ?thesis by simp
qed

lemma find_snoc:
  "find P (xs @ [y]) = (case find P xs of Some x \<Rightarrow> Some x
                        | None \<Rightarrow> if P y then Some y else None)"
  by (induction xs) simp_all

lemma find_upt_Suc:
  "find P [0..<Suc n] = (case find P [0..<n] of Some x \<Rightarrow> Some x
                          | None \<Rightarrow> if P n then Some n else None)"
  by (simp add: find_snoc)

lemma capturedAt_find:
  "capturedAt (forEach_from tolR tolV thrustSpike 0 fs initial_state) =
     map_option (\<lambda>idx. int idx - int K + 1)
       (find (capture_frame tolR tolV fs) [0..<length fs])"
proof (induction fs rule: rev_induct)
  case Nil
  show ?case by (simp add: initial_state_def)
next
  case (snoc f fs)
  let ?s = "forEach_from tolR tolV thrustSpike 0 fs initial_state"
  let ?n = "length fs"
  have cnt: "tolStreak ?s = streak tolR tolV fs"
            "seenOut ?s = (\<exists>f \<in> set fs. \<not> inTol tolR tolV f)"
    using pass_counters [of tolR tolV thrustSpike fs] by simp_all
  have old: "find (capture_frame tolR tolV (fs @ [f])) [0..<?n]
               = find (capture_frame tolR tolV fs) [0..<?n]"
    by (rule find_cong) (simp_all add: capture_frame_append)
  have last: "capture_frame tolR tolV (fs @ [f]) ?n \<longleftrightarrow>
                inTol tolR tolV f \<and> seenOut ?s \<and> K \<le> tolStreak ?s + 1"
  proof (cases "inTol tolR tolV f")
    case True
    then show ?thesis
      by (simp add: capture_frame_def out_seen_all in_tol_run_streak cnt streak_def)
  next
    case False
    then have "streak tolR tolV (fs @ [f]) = 0" by (simp add: streak_def)
    with False K_pos show ?thesis
      by (simp add: capture_frame_def in_tol_run_streak)
  qed
  show ?case
  proof (cases "capturedAt ?s")
    case None
    with snoc.IH have "find (capture_frame tolR tolV fs) [0..<?n] = None" by simp
    with None show ?thesis
      by (simp add: forEach_from_snoc callback_fields find_upt_Suc old last del: upt_Suc)
  next
    case (Some c)
    with snoc.IH obtain i where "find (capture_frame tolR tolV fs) [0..<?n] = Some i"
      by (cases "find (capture_frame tolR tolV fs) [0..<?n]") simp_all
    with Some snoc.IH show ?thesis
      by (simp add: forEach_from_snoc callback_fields find_upt_Suc old del: upt_Suc)
  qed
qed


lemma capturedAt_prefix:
  assumes "n \<le> length frames"
  shows "capturedAt (forEach_from tolR tolV thrustSpike 0 (take n frames) initial_state) =
           map_option (\<lambda>idx. int idx - int K + 1)
             (find (capture_frame tolR tolV frames) [0..<n])"
proof -
  have len: "length (take n frames) = n" using assms by simp
  have "capture_frame tolR tolV (take n frames @ drop n frames) idx
          = capture_frame tolR tolV (take n frames) idx" if "idx < n" for idx
    using that len by (simp only: capture_frame_append)
  then have "find (capture_frame tolR tolV (take n frames)) [0..<n]
               = find (capture_frame tolR tolV frames) [0..<n]"
    by (intro find_cong) simp_all
  with capturedAt_find [of tolR tolV thrustSpike "take n frames"] len show ?thesis by simp
qed

lemma first_capture_after_out:
  assumes "find (capture_frame tolR tolV frames) [0..<n] = Some idx"
  shows "K \<le> idx \<and> \<not> inTol tolR tolV (frames ! (idx - K))
         \<and> (\<forall>j. idx - K < j \<and> j \<le> idx \<longrightarrow> inTol tolR tolV (frames ! j))"
proof -
  from assms have here: "capture_frame tolR tolV frames idx"
    and first: "\<And>j. j < idx \<Longrightarrow> \<not> capture_frame tolR tolV frames j"
    by (auto simp add: find_Some_iff)
  from here have run: "K \<le> Suc idx" "\<And>j. Suc idx - K \<le> j \<Longrightarrow> j \<le> idx \<Longrightarrow> inTol tolR tolV (frames ! j)"
    by (simp_all add: capture_frame_def in_tol_run_def)
  from here obtain q where o: "q \<le> idx" "\<not> inTol tolR tolV (frames ! q)"
    by (auto simp add: capture_frame_def out_seen_def)
  from o run have o_lt: "q < Suc idx - K" by (meson not_le)
  then have K_le: "K \<le> idx" by simp
  have "\<not> inTol tolR tolV (frames ! (idx - K))"
  proof
    assume inb: "inTol tolR tolV (frames ! (idx - K))"
    with o(2) have "q \<noteq> idx - K" by auto
    with o_lt have o_lt': "q < idx - K" by simp
    have "idx - 1 < idx" using K_le K_pos by simp
    moreover have "capture_frame tolR tolV frames (idx - 1)"
      unfolding capture_frame_def out_seen_def in_tol_run_def
    proof (intro conjI ballI)
      show "\<exists>j\<in>{0..idx - 1}. \<not> inTol tolR tolV (frames ! j)"
        using o(2) o_lt' by (intro bexI [of _ q]) simp_all
      show "K \<le> Suc (idx - 1)" using K_le by simp
      fix j assume "j \<in> {Suc (idx - 1) - K..idx - 1}"
      then have j: "idx - K \<le> j" "j \<le> idx - 1" using K_le K_pos by simp_all
      show "inTol tolR tolV (frames ! j)"
      proof (cases "j = idx - K")
        case True with inb show ?thesis by simp
      next
        case False
        with j have "Suc idx - K \<le> j" "j \<le> idx" using K_le by simp_all
        then show ?thesis by (rule run(2))
      qed
    qed
    ultimately show False using first by blast
  qed
  moreover have "inTol tolR tolV (frames ! j)" if "idx - K < j" "j \<le> idx" for j
    using that K_le by (intro run(2)) simp_all
  ultimately show ?thesis using K_le by blast
qed

lemma forEach_from_append:
  "forEach_from tolR tolV thrustSpike idx (fs @ gs) s =
     forEach_from tolR tolV thrustSpike (idx + length fs) gs
       (forEach_from tolR tolV thrustSpike idx fs s)"
  by (induction fs arbitrary: idx s) simp_all

lemma capturedAt_kept:
  "capturedAt s = Some c \<Longrightarrow>
     capturedAt (forEach_from tolR tolV thrustSpike idx fs s) = Some c"
  by (induction fs arbitrary: idx s) (simp_all add: callback_fields)

lemma capturedAt_out_then_in:
  assumes len: "length frames = 100"
    and out: "\<And>j. j < 50 \<Longrightarrow> \<not> inTol tolR tolV (frames ! j)"
    and "in": "\<And>j. 50 \<le> j \<Longrightarrow> j < 100 \<Longrightarrow> inTol tolR tolV (frames ! j)"
  shows "capturedAt (forEach_from tolR tolV thrustSpike 0 frames initial_state) = Some 50"
proof -
  have at79: "capture_frame tolR tolV frames 79"
    unfolding capture_frame_def out_seen_def in_tol_run_def
  proof (intro conjI ballI)
    show "\<exists>j\<in>{0..79}. \<not> inTol tolR tolV (frames ! j)"
      using out [of 0] by (intro bexI [of _ 0]) simp_all
    show "K \<le> Suc 79" by (simp add: K_def)
    fix j assume "j \<in> {Suc 79 - K..79}"
    then show "inTol tolR tolV (frames ! j)" by (intro "in") (simp_all add: K_def)
  qed
  have before: "\<not> capture_frame tolR tolV frames j" if "j < 79" for j
  proof
    assume "capture_frame tolR tolV frames j"
    then have run: "K \<le> Suc j" "\<forall>i\<in>{Suc j - K..j}. inTol tolR tolV (frames ! i)"
      by (simp_all add: capture_frame_def in_tol_run_def)
    then have "inTol tolR tolV (frames ! (Suc j - K))" using K_pos by simp
    moreover have "Suc j - K < 50" using that by (simp add: K_def)
    ultimately show False using out by blast
  qed
  have "find (capture_frame tolR tolV frames) [0..<100] = Some 79"
    unfolding find_Some_iff
    by (intro exI [of _ 79]) (simp add: at79 before del: upt_Suc)
  with capturedAt_find [of tolR tolV thrustSpike frames] len show ?thesis
    by (simp add: K_def)
qed

lemma capturedAt_never_out:
  assumes "\<forall>f \<in> set frames. inTol tolR tolV f"
  shows "capturedAt (forEach_from tolR tolV thrustSpike 0 frames initial_state) = None"
proof -
  have "\<not> capture_frame tolR tolV frames idx" if "idx < length frames" for idx
  proof -
    have "inTol tolR tolV (frames ! j)" if "j \<le> idx" for j
      using assms that \<open>idx < length frames\<close> by simp
    then show ?thesis by (simp add: capture_frame_def out_seen_def)
  qed
  then have "find (capture_frame tolR tolV frames) [0..<length frames] = None"
    by (simp add: find_None_iff)
  then show ?thesis by (simp add: capturedAt_find)
qed

section \<open>The event list\<close>

lemma callback_events:
  "events (forEach_callback tolR tolV thrustSpike idx f s) =
     events s
     @ (if thr f > thrustSpike then [thrust_event idx] else [])
     @ (if inTol tolR tolV f \<and> seenOut s \<and> capturedAt s = None \<and> K \<le> tolStreak s + 1
        then [entered_tol_event (int idx - int K + 1)] else [])"
  by (simp add: forEach_callback_def push_spark_def track_tolerance_def push_thrust_def Let_def
       )

lemma thrust_events_of_pass:
  "filter (\<lambda>ev. ev_type ev = Thrust)
      (events (forEach_from tolR tolV thrustSpike 0 fs initial_state)) =
     map thrust_event (filter (\<lambda>i. thr (fs ! i) > thrustSpike) [0..<length fs])"
proof (induction fs rule: rev_induct)
  case Nil
  show ?case by (simp add: initial_state_def)
next
  case (snoc f fs)
  have "filter (\<lambda>i. thr ((fs @ [f]) ! i) > thrustSpike) [0..<length fs]
          = filter (\<lambda>i. thr (fs ! i) > thrustSpike) [0..<length fs]"
    by (rule filter_cong) (simp_all add: nth_append)
  with snoc.IH show ?case
    by (simp add: forEach_from_snoc callback_events thrust_event_def entered_tol_event_def)
qed

lemma entered_tol_events_of_pass:
  "filter (\<lambda>ev. ev_type ev = EnteredTol)
      (events (forEach_from tolR tolV thrustSpike 0 fs initial_state)) =
     (case capturedAt (forEach_from tolR tolV thrustSpike 0 fs initial_state) of
        None \<Rightarrow> [] | Some c \<Rightarrow> [entered_tol_event c])"
proof (induction fs rule: rev_induct)
  case Nil
  show ?case by (simp add: initial_state_def)
next
  case (snoc f fs)
  then show ?case
    by (auto simp add: forEach_from_snoc callback_events callback_fields thrust_event_def
          entered_tol_event_def split: option.splits)
qed

lemma events_detection_sorted:
  "sorted_wrt detection_order (events (forEach_from tolR tolV thrustSpike 0 fs initial_state))
   \<and> (\<forall>ev \<in> set (events (forEach_from tolR tolV thrustSpike 0 fs initial_state)).
         detected_at ev < int (length fs))"
proof (induction fs rule: rev_induct)
  case Nil
  show ?case by (simp add: initial_state_def)
next
  case (snoc f fs)
  let ?s = "forEach_from tolR tolV thrustSpike 0 fs initial_state"
  let ?n = "length fs"
  from snoc.IH have srt: "sorted_wrt detection_order (events ?s)"
    and bnd: "\<And>ev. ev \<in> set (events ?s) \<Longrightarrow> detected_at ev < int ?n"
    by simp_all
  have d1: "detected_at (thrust_event ?n) = int ?n"
    by (simp add: detected_at_def thrust_event_def)
  have d2: "detected_at (entered_tol_event (int ?n - int K + 1)) = int ?n"
    by (simp add: detected_at_def entered_tol_event_def)
  have t1: "ev_type (thrust_event ?n) = Thrust" by (simp add: thrust_event_def)
  have t2: "ev_type (entered_tol_event (int ?n - int K + 1)) = EnteredTol"
    by (simp add: entered_tol_event_def)
  have before: "detection_order ev (thrust_event ?n)"
    "detection_order ev (entered_tol_event (int ?n - int K + 1))" if "ev \<in> set (events ?s)" for ev
    using bnd [OF that] by (simp_all add: detection_order_def d1 d2)
  have tie: "detection_order (thrust_event ?n) (entered_tol_event (int ?n - int K + 1))"
    by (simp add: detection_order_def d1 d2 t1 t2)
  show ?case
    using srt bnd before tie
    by (auto simp add: forEach_from_snoc callback_events sorted_wrt_append d1 d2 less_imp_le
          dest!: bnd)
qed

section \<open>The example frames\<close>

lemma hypot3_axis: "hypot3 (x, 0, 0) = \<bar>x\<bar>" "hypot3 (0, y, 0) = \<bar>y\<bar>"
  by (simp_all add: hypot3_def)

lemma vtanErr_circular:
  "f_v_tan_err f = None \<Longrightarrow> f_r f = (1, 0, 0) \<Longrightarrow> f_v f = (0, 1, 0) \<Longrightarrow> vtanErr f = 0"
  by (simp add: vtanErr_def stationKeepingErrors_def hypot3_axis Let_def)

lemma example_frames:
  "0 \<le> tolR \<Longrightarrow> 0 \<le> tolV \<Longrightarrow> inTol tolR tolV frame_on_target"
  "tolR < 1 \<Longrightarrow> \<not> inTol tolR tolV frame_far"
  "0 \<le> tolR \<Longrightarrow> 0 \<le> tolV \<Longrightarrow> inTol tolR tolV frame_burn"
  "thr frame_on_target = 0" "thr frame_far = 0" "thr frame_burn = 3 / 100"
  by (simp_all add: inTol_def posErr_def vtanErr_circular thr_def hypot3_axis
        frame_on_target_def frame_far_def frame_burn_def)

lemma run_in_tol:
  assumes "\<forall>f \<in> set fs. inTol tolR tolV f \<and> \<not> thr f > thrustSpike"
    and "tolStreak s + length fs < K"
  shows "events (forEach_from tolR tolV thrustSpike idx fs s) = events s
       \<and> tolStreak (forEach_from tolR tolV thrustSpike idx fs s) = tolStreak s + length fs
       \<and> seenOut (forEach_from tolR tolV thrustSpike idx fs s) = seenOut s
       \<and> capturedAt (forEach_from tolR tolV thrustSpike idx fs s) = capturedAt s"
  using assms
proof (induction fs arbitrary: idx s)
  case Nil
  show ?case by simp
next
  case (Cons f fs)
  let ?s = "forEach_callback tolR tolV thrustSpike idx f s"
  from Cons.prems have f: "inTol tolR tolV f" "\<not> thr f > thrustSpike" and rest: "\<forall>f \<in> set fs. inTol tolR tolV f \<and> \<not> thr f > thrustSpike"
    and k: "tolStreak s + Suc (length fs) < K" by simp_all
  have st: "events ?s = events s" "tolStreak ?s = tolStreak s + 1" "seenOut ?s = seenOut s" "capturedAt ?s = capturedAt s"
    using f k by (simp_all add: callback_events callback_fields)
  have "tolStreak ?s + length fs < K" using k st by simp
  from Cons.IH [OF rest this] st show ?case by simp
qed

lemma late_burn_events:
  assumes tol: "0 \<le> tolR" "tolR < 1" "0 \<le> tolV"
    and spike: "0 \<le> thrustSpike" "thrustSpike < 3 / 100"
  shows "events (forEach_from tolR tolV thrustSpike 0 late_burn_episode initial_state)
           = [thrust_event 30, entered_tol_event 1]"
proof -
  let ?s1 = "forEach_callback tolR tolV thrustSpike 0 frame_far initial_state"
  let ?s2 = "forEach_from tolR tolV thrustSpike (Suc 0) (replicate 29 frame_on_target) ?s1"
  have s1: "events ?s1 = []" "tolStreak ?s1 = 0" "seenOut ?s1" "capturedAt ?s1 = None"
    using tol spike
    by (simp_all add: callback_events callback_fields example_frames initial_state_def)
  have "events ?s2 = events ?s1
        \<and> tolStreak ?s2 = tolStreak ?s1 + length (replicate 29 frame_on_target)
        \<and> seenOut ?s2 = seenOut ?s1 \<and> capturedAt ?s2 = capturedAt ?s1"
    using tol spike by (intro run_in_tol) (simp_all add: example_frames s1 K_def)
  with s1 have s2: "events ?s2 = []" "tolStreak ?s2 = 29" "seenOut ?s2" "capturedAt ?s2 = None"
    by simp_all
  have "forEach_from tolR tolV thrustSpike 0 late_burn_episode initial_state
          = forEach_callback tolR tolV thrustSpike 30 frame_burn ?s2"
    by (simp add: late_burn_episode_def forEach_from_append)
  then show ?thesis
    using tol spike by (simp add: callback_events s2 example_frames K_def)
qed

lemma late_burn_result:
  "res_events (episode_metrics (1 / 20) (1 / 20) (1 / 50) late_burn_episode)
     = [\<lparr>ev_t = 30, ev_type = Thrust\<rparr>, \<lparr>ev_t = 1, ev_type = EnteredTol\<rparr>]"
proof -
  have "events (forEach_from (1 / 20) (1 / 20) (1 / 50) 0 late_burn_episode initial_state)
          = [thrust_event 30, entered_tol_event 1]"
    by (rule late_burn_events) simp_all
  then show ?thesis
    by (simp add: episode_metrics_def Let_def thrust_event_def entered_tol_event_def)
qed

section \<open>Capture is debounced and permanent\<close>

text \<open>
  Claim C1. With \<open>K = 30\<close>: after the first \<open>n\<close> frames, \<open>capturedAt\<close> is
  \<open>idx - K + 1\<close> for the first frame \<open>idx < n\<close> at which the last \<open>K\<close> frames are all
  in tolerance and an out-of-tolerance frame has been seen, and \<open>null\<close> when there is no
  such frame; so it is set at that frame and keeps its value under every further frame.
  At that frame the streak is exactly \<open>K\<close>: frame \<open>idx - K\<close> is out of tolerance and the
  frames after it up to \<open>idx\<close> are in tolerance. An episode of 100 frames that is out of
  tolerance on frames 0 to 49 and in tolerance on frames 50 to 99 has \<open>capturedAt = 50\<close>;
  an episode that is in tolerance on every frame has \<open>capturedAt = null\<close>, whatever its
  length.
\<close>

theorem capturedAt_debounced:
  "K = 30
   \<and> (n \<le> length frames \<longrightarrow>
        capturedAt (forEach_from tolR tolV thrustSpike 0 (take n frames) initial_state) =
          map_option (\<lambda>idx. int idx - int K + 1)
            (find (capture_frame tolR tolV frames) [0..<n]))
   \<and> res_capturedAt (episode_metrics tolR tolV thrustSpike frames) =
        map_option (\<lambda>idx. int idx - int K + 1)
          (find (capture_frame tolR tolV frames) [0..<length frames])
   \<and> (find (capture_frame tolR tolV frames) [0..<length frames] = Some idx \<longrightarrow>
        K \<le> idx \<and> \<not> inTol tolR tolV (frames ! (idx - K))
        \<and> (\<forall>j. idx - K < j \<and> j \<le> idx \<longrightarrow> inTol tolR tolV (frames ! j)))
   \<and> (res_capturedAt (episode_metrics tolR tolV thrustSpike frames) = Some c \<longrightarrow>
        res_capturedAt (episode_metrics tolR tolV thrustSpike (frames @ later)) = Some c)
   \<and> (length frames = 100
        \<and> (\<forall>j<50. \<not> inTol tolR tolV (frames ! j))
        \<and> (\<forall>j. 50 \<le> j \<and> j < 100 \<longrightarrow> inTol tolR tolV (frames ! j)) \<longrightarrow>
        res_capturedAt (episode_metrics tolR tolV thrustSpike frames) = Some 50)
   \<and> ((\<forall>f \<in> set frames. inTol tolR tolV f) \<longrightarrow>
        res_capturedAt (episode_metrics tolR tolV thrustSpike frames) = None)"
proof -
  have res: "res_capturedAt (episode_metrics tolR tolV thrustSpike fs)
               = capturedAt (forEach_from tolR tolV thrustSpike 0 fs initial_state)" for fs
    by (simp add: episode_metrics_def Let_def)
  have kept: "res_capturedAt (episode_metrics tolR tolV thrustSpike (frames @ later)) = Some c"
    if "res_capturedAt (episode_metrics tolR tolV thrustSpike frames) = Some c"
    using that by (simp add: res forEach_from_append capturedAt_kept)
  have example: "res_capturedAt (episode_metrics tolR tolV thrustSpike frames) = Some 50"
    if "length frames = 100" "\<forall>j<50. \<not> inTol tolR tolV (frames ! j)"
       "\<forall>j. 50 \<le> j \<and> j < 100 \<longrightarrow> inTol tolR tolV (frames ! j)"
    unfolding res using that by (intro capturedAt_out_then_in) simp_all
  have never: "res_capturedAt (episode_metrics tolR tolV thrustSpike frames) = None"
    if "\<forall>f \<in> set frames. inTol tolR tolV f"
    unfolding res using that by (rule capturedAt_never_out)
  have prefix: "n \<le> length frames \<longrightarrow>
        capturedAt (forEach_from tolR tolV thrustSpike 0 (take n frames) initial_state) =
          map_option (\<lambda>idx. int idx - int K + 1)
            (find (capture_frame tolR tolV frames) [0..<n])"
    by (simp add: capturedAt_prefix)
  have whole: "res_capturedAt (episode_metrics tolR tolV thrustSpike frames) =
        map_option (\<lambda>idx. int idx - int K + 1)
          (find (capture_frame tolR tolV frames) [0..<length frames])"
    unfolding res by (rule capturedAt_find)
  have exact: "find (capture_frame tolR tolV frames) [0..<length frames] = Some idx \<longrightarrow>
        K \<le> idx \<and> \<not> inTol tolR tolV (frames ! (idx - K))
        \<and> (\<forall>j. idx - K < j \<and> j \<le> idx \<longrightarrow> inTol tolR tolV (frames ! j))"
    using first_capture_after_out [of tolR tolV frames "length frames" idx] by blast
  have k: "K = 30" by (rule K_def)
  from k prefix whole exact kept example never show ?thesis by blast
qed

theorem capturedAt_debounced_witness:
  "length out_then_in_episode = 100
   \<and> \<not> inTol 0.05 0.05 (out_then_in_episode ! 49)
   \<and> inTol 0.05 0.05 (out_then_in_episode ! 50)
   \<and> res_capturedAt (episode_metrics 0.05 0.05 0.02 out_then_in_episode) = Some 50
   \<and> find (capture_frame 0.05 0.05 out_then_in_episode) [0..<100] = Some 79
   \<and> capturedAt (forEach_from 0.05 0.05 0.02 0 (take 100 out_then_in_episode) initial_state)
       = Some 50
   \<and> res_capturedAt (episode_metrics 0.05 0.05 0.02 (out_then_in_episode @ [frame_far]))
       = Some 50
   \<and> res_capturedAt (episode_metrics 0.05 0.05 0.02 (replicate 100 frame_on_target)) = None"
proof -
  let ?ep = out_then_in_episode
  have len: "length ?ep = 100"
    by (simp add: out_then_in_episode_def)
  have out: "\<forall>j<50. \<not> inTol 0.05 0.05 (?ep ! j)"
    by (simp add: out_then_in_episode_def nth_append example_frames)
  have "in": "\<forall>j. 50 \<le> j \<and> j < 100 \<longrightarrow> inTol 0.05 0.05 (?ep ! j)"
    by (auto simp add: out_then_in_episode_def nth_append example_frames)
  have all_in: "\<forall>f \<in> set (replicate 100 frame_on_target). inTol 0.05 0.05 f"
    by (simp add: example_frames)
  note inst = capturedAt_debounced [where frames = ?ep and tolR = "0.05" and tolV = "0.05"
      and thrustSpike = "0.02" and n = 100 and c = 50 and later = "[frame_far]"]
  from inst [of 0] len out "in"
  have cap: "res_capturedAt (episode_metrics 0.05 0.05 0.02 ?ep) = Some 50"
    by blast
  from inst [of 0] have whole: "res_capturedAt (episode_metrics 0.05 0.05 0.02 ?ep) =
      map_option (\<lambda>idx. int idx - int K + 1) (find (capture_frame 0.05 0.05 ?ep) [0..<length ?ep])"
    and k: "K = 30"
    by blast+
  from cap whole obtain i where i: "find (capture_frame 0.05 0.05 ?ep) [0..<length ?ep] = Some i"
      "int i - int K + 1 = 50"
    by (cases "find (capture_frame 0.05 0.05 ?ep) [0..<length ?ep]") simp_all
  from i(2) k have "i = 79" by simp
  with i(1) len have first: "find (capture_frame 0.05 0.05 ?ep) [0..<100] = Some 79"
    by simp
  from inst [of 79] first len
  have exact: "K \<le> 79 \<and> \<not> inTol 0.05 0.05 (?ep ! (79 - K))"
    by simp
  from inst [of 0] len first k
  have pre: "capturedAt (forEach_from 0.05 0.05 0.02 0 (take 100 ?ep) initial_state) = Some 50"
    by simp
  from inst [of 0] cap
  have kept: "res_capturedAt (episode_metrics 0.05 0.05 0.02 (?ep @ [frame_far])) = Some 50"
    by blast
  from capturedAt_debounced [where frames = "replicate 100 frame_on_target" and tolR = "0.05"
      and tolV = "0.05" and thrustSpike = "0.02" and n = 0 and idx = 0 and c = 0
      and later = "[]"] all_in
  have never: "res_capturedAt (episode_metrics 0.05 0.05 0.02 (replicate 100 frame_on_target))
                 = None"
    by blast
  from exact have "\<not> inTol 0.05 0.05 (?ep ! 49)" by (simp add: K_def)
  moreover from "in" have "inTol 0.05 0.05 (?ep ! 50)" by simp
  ultimately show ?thesis using len cap first pre kept never by blast
qed

section \<open>The order of the event list\<close>

text \<open>
  The tolerance event is pushed when the capture is detected but carries the index of the
  start of the run, so a thrust event of the last \<open>K - 1\<close> frames of the run stands before
  it with a larger index: with an out-of-tolerance frame 0, in-tolerance frames 1 to 30
  and a burn at frame 30 the list is the thrust event of index 30 followed by the
  tolerance event of index 1.
\<close>

theorem events_not_sorted_by_index:
  "res_events (episode_metrics 0.05 0.05 0.02 late_burn_episode)
     = [\<lparr>ev_t = 30, ev_type = Thrust\<rparr>, \<lparr>ev_t = 1, ev_type = EnteredTol\<rparr>]
   \<and> \<not> sorted (map ev_t (res_events (episode_metrics 0.05 0.05 0.02 late_burn_episode)))"
  by (simp add: late_burn_result)

lemma thrust_before_entered_tol:
  assumes srt: "sorted_wrt detection_order evs"
    and i: "i < length evs" and j: "j < length evs"
    and ti: "ev_type (evs ! i) = Thrust" and tj: "ev_type (evs ! j) = EnteredTol"
    and le: "ev_t (evs ! i) \<le> ev_t (evs ! j) + int K - 1"
  shows "i < j"
proof (rule ccontr)
  assume "\<not> i < j"
  moreover from ti tj have "i \<noteq> j" by auto
  ultimately have "j < i" by simp
  with srt i have "detection_order (evs ! j) (evs ! i)"
    by (simp add: sorted_wrt_iff_nth_less)
  with ti tj le show False
    by (simp add: detection_order_def detected_at_def)
qed

text \<open>
  Claim C2, as amended. The events of an episode stand in the order in which the pass
  detected them: ascending by the frame of detection (for a thrust event its index, for
  the tolerance event its index plus \<open>K - 1\<close>), the thrust event before the tolerance
  event detected at the same frame. The thrust events are strictly ascending by index,
  and there is at most one tolerance event, the one of index \<open>capturedAt\<close>. Every thrust
  event whose index is at most the frame of detection of the tolerance event stands
  before it, so a thrust event precedes the tolerance event of the same index, and both
  are kept.
\<close>

theorem events_in_detection_order:
  "sorted_wrt detection_order (res_events (episode_metrics tolR tolV thrustSpike frames))
   \<and> sorted_wrt (<)
        (map ev_t (filter (\<lambda>ev. ev_type ev = Thrust)
           (res_events (episode_metrics tolR tolV thrustSpike frames))))
   \<and> filter (\<lambda>ev. ev_type ev = EnteredTol)
        (res_events (episode_metrics tolR tolV thrustSpike frames))
       = (case res_capturedAt (episode_metrics tolR tolV thrustSpike frames) of
            None \<Rightarrow> [] | Some c \<Rightarrow> [entered_tol_event c])
   \<and> (i < length (res_events (episode_metrics tolR tolV thrustSpike frames))
        \<and> j < length (res_events (episode_metrics tolR tolV thrustSpike frames))
        \<and> ev_type (res_events (episode_metrics tolR tolV thrustSpike frames) ! i) = Thrust
        \<and> ev_type (res_events (episode_metrics tolR tolV thrustSpike frames) ! j) = EnteredTol
        \<and> ev_t (res_events (episode_metrics tolR tolV thrustSpike frames) ! i)
            \<le> ev_t (res_events (episode_metrics tolR tolV thrustSpike frames) ! j) + int K - 1
        \<longrightarrow> i < j)"
proof -
  have res: "res_events (episode_metrics tolR tolV thrustSpike frames)
               = events (forEach_from tolR tolV thrustSpike 0 frames initial_state)"
            "res_capturedAt (episode_metrics tolR tolV thrustSpike frames)
               = capturedAt (forEach_from tolR tolV thrustSpike 0 frames initial_state)"
    by (simp_all add: episode_metrics_def Let_def)
  let ?evs = "events (forEach_from tolR tolV thrustSpike 0 frames initial_state)"
  have srt: "sorted_wrt detection_order ?evs"
    using events_detection_sorted [of tolR tolV thrustSpike frames] by simp
  have "map ev_t (map thrust_event xs) = map int xs" for xs
    by (simp add: thrust_event_def comp_def)
  moreover have "sorted_wrt (<) (map int (filter P [0..<n]))" for P n
    by (simp add: sorted_wrt_map sorted_wrt_filter)
  ultimately have thrusts: "sorted_wrt (<) (map ev_t (filter (\<lambda>ev. ev_type ev = Thrust) ?evs))"
    by (simp only: thrust_events_of_pass)
  have tol: "filter (\<lambda>ev. ev_type ev = EnteredTol) ?evs
       = (case capturedAt (forEach_from tolR tolV thrustSpike 0 frames initial_state) of
            None \<Rightarrow> [] | Some c \<Rightarrow> [entered_tol_event c])"
    by (rule entered_tol_events_of_pass)
  have before: "i < length ?evs \<and> j < length ?evs
        \<and> ev_type (?evs ! i) = Thrust \<and> ev_type (?evs ! j) = EnteredTol
        \<and> ev_t (?evs ! i) \<le> ev_t (?evs ! j) + int K - 1 \<longrightarrow> i < j"
    using thrust_before_entered_tol [OF srt, of i j] by blast
  from srt thrusts tol before show ?thesis
    unfolding res by blast
qed

theorem events_in_detection_order_witness:
  "res_events (episode_metrics (1 / 20) (1 / 20) (1 / 50) late_burn_episode)
     = [\<lparr>ev_t = 30, ev_type = Thrust\<rparr>, \<lparr>ev_t = 1, ev_type = EnteredTol\<rparr>]
   \<and> sorted_wrt detection_order
        [\<lparr>ev_t = 30, ev_type = Thrust\<rparr>, \<lparr>ev_t = 1, ev_type = EnteredTol\<rparr>]
   \<and> (30::int) \<le> 1 + int K - 1
   \<and> (0::nat) < 1"
proof -
  let ?evs = "res_events (episode_metrics (1 / 20) (1 / 20) (1 / 50) late_burn_episode)"
  note inst = events_in_detection_order [of "1 / 20" "1 / 20" "1 / 50" late_burn_episode 0 1]
  from inst have "sorted_wrt detection_order ?evs"
    by (rule conjunct1)
  then have srt: "sorted_wrt detection_order
        [\<lparr>ev_t = 30, ev_type = Thrust\<rparr>, \<lparr>ev_t = 1, ev_type = EnteredTol\<rparr>]"
    by (simp only: late_burn_result)
  have k: "(30::int) \<le> 1 + int K - 1" by (simp add: K_def)
  have h: "0 < length ?evs" "1 < length ?evs" "ev_type (?evs ! 0) = Thrust"
    "ev_type (?evs ! 1) = EnteredTol" "ev_t (?evs ! 0) \<le> ev_t (?evs ! 1) + int K - 1"
    by (simp_all add: late_burn_result K_def)
  from inst h have "(0::nat) < 1" by blast
  with srt k late_burn_result show ?thesis by blast
qed

section \<open>The empty episode\<close>

text \<open>
  Claim C3. For the episode without frames the pass returns \<open>len = 0\<close>,
  \<open>pctInTol = 0\<close>, \<open>capturedAt = null\<close>, no events and both sums \<open>0\<close> (and empty
  sparklines), for all tolerances and thresholds: the callback never runs, so nothing in
  it can fail, and \<open>useRollout_mets\<close> maps a rollout holding only that episode to this
  one result.
\<close>

theorem empty_episode_metrics:
  "episode_metrics tolR tolV thrustSpike [] =
     \<lparr>res_rewardSum = 0, res_fuelSum = 0, res_capturedAt = None, res_events = [],
      res_len = 0, res_pctInTol = 0,
      res_spark = \<lparr>spark_reward = [], spark_fuel = [], spark_posErr = [], spark_vTanErr = []\<rparr>\<rparr>
   \<and> useRollout_mets tolR tolV thrustSpike [[]] = [episode_metrics tolR tolV thrustSpike []]"
  by (simp add: episode_metrics_def initial_state_def useRollout_mets_def)

section \<open>Percentage in tolerance\<close>

text \<open>
  Claim C4. \<open>pctInTol\<close> is the number of frames classified in tolerance divided by the
  number of frames, and \<open>0\<close> for the episode without frames; it lies between \<open>0\<close> and
  \<open>1\<close>; with 40 frames in tolerance out of 100 it is \<open>0.4\<close>.
\<close>

theorem pctInTol_is_ratio:
  "res_len (episode_metrics tolR tolV thrustSpike frames) = length frames
   \<and> res_pctInTol (episode_metrics tolR tolV thrustSpike frames) =
       (if length frames = 0 then 0
        else real (length (filter (inTol tolR tolV) frames)) / real (length frames))
   \<and> 0 \<le> res_pctInTol (episode_metrics tolR tolV thrustSpike frames)
   \<and> res_pctInTol (episode_metrics tolR tolV thrustSpike frames) \<le> 1
   \<and> (length frames = 100 \<and> length (filter (inTol tolR tolV) frames) = 40 \<longrightarrow>
        res_pctInTol (episode_metrics tolR tolV thrustSpike frames) = 0.4)"
proof -
  let ?c = "length (filter (inTol tolR tolV) frames)"
  have cnt: "inTolCount (forEach_from tolR tolV thrustSpike 0 frames initial_state) = ?c"
    using pass_counters [of tolR tolV thrustSpike frames] by simp
  have pct: "res_pctInTol (episode_metrics tolR tolV thrustSpike frames) =
       (if length frames = 0 then 0 else real ?c / real (length frames))"
    by (simp add: episode_metrics_def Let_def cnt)
  have "?c \<le> length frames" by (rule length_filter_le)
  then have "real ?c / real (length frames) \<le> 1" if "length frames \<noteq> 0"
    using that by (simp add: divide_le_eq_1)
  then have le1: "res_pctInTol (episode_metrics tolR tolV thrustSpike frames) \<le> 1"
    by (simp add: pct)
  have ge0: "0 \<le> res_pctInTol (episode_metrics tolR tolV thrustSpike frames)"
    by (simp add: pct)
  have ex: "length frames = 100 \<and> ?c = 40 \<longrightarrow>
        res_pctInTol (episode_metrics tolR tolV thrustSpike frames) = 0.4"
    by (simp add: pct)
  have len: "res_len (episode_metrics tolR tolV thrustSpike frames) = length frames"
    by (simp add: episode_metrics_def Let_def)
  from len pct ge0 le1 ex show ?thesis by blast
qed

theorem pctInTol_is_ratio_witness:
  "length forty_percent_episode = 100
   \<and> length (filter (inTol 0.05 0.05) forty_percent_episode) = 40
   \<and> res_pctInTol (episode_metrics 0.05 0.05 0.02 forty_percent_episode) = 0.4"
proof -
  have h: "length forty_percent_episode = 100"
    "length (filter (inTol 0.05 0.05) forty_percent_episode) = 40"
    by (simp_all add: forty_percent_episode_def example_frames)
  with pctInTol_is_ratio [of "0.05" "0.05" "0.02" forty_percent_episode]
  have "res_pctInTol (episode_metrics 0.05 0.05 0.02 forty_percent_episode) = 0.4" by blast
  with h show ?thesis by blast
qed

section \<open>Thrust events, fuel and reward\<close>

lemma pass_sums:
  "rewardSum (forEach_from tolR tolV thrustSpike 0 fs initial_state) = sum_list (map reward_or_0 fs)
   \<and> fuelSum (forEach_from tolR tolV thrustSpike 0 fs initial_state) = sum_list (map thr fs)"
  by (induction fs rule: rev_induct)
     (simp_all add: initial_state_def forEach_from_snoc callback_fields)

lemma push_thrust_events:
  "events (push_thrust thrustSpike idx f s) =
     events s @ (if thr f > thrustSpike then [thrust_event idx] else [])"
  by (simp add: push_thrust_def)

lemma thrust_event_in_events:
  assumes "idx < length frames"
  shows "thrust_event idx \<in> set (events (forEach_from tolR tolV thrustSpike 0 frames initial_state))
         \<longleftrightarrow> thr (frames ! idx) > thrustSpike"
proof -
  let ?ev = "events (forEach_from tolR tolV thrustSpike 0 frames initial_state)"
  have "thrust_event idx \<in> set ?ev
        \<longleftrightarrow> thrust_event idx \<in> set (filter (\<lambda>ev. ev_type ev = Thrust) ?ev)"
    by (simp add: thrust_event_def)
  also have "\<dots> \<longleftrightarrow> thrust_event idx
        \<in> thrust_event ` set (filter (\<lambda>i. thr (frames ! i) > thrustSpike) [0..<length frames])"
    by (simp only: thrust_events_of_pass set_map)
  also have "\<dots> \<longleftrightarrow> idx \<in> set (filter (\<lambda>i. thr (frames ! i) > thrustSpike) [0..<length frames])"
    by (auto simp add: thrust_event_def)
  also have "\<dots> \<longleftrightarrow> thr (frames ! idx) > thrustSpike"
    using assms by simp
  finally show ?thesis .
qed

text \<open>
  Claim C5. The thrust events of an episode are, in order, those of the frame indices
  whose thrust magnitude \<open>thr\<close> is strictly greater than \<open>thrustSpike\<close>; the callback
  appends the event of index \<open>idx\<close> exactly in that case. \<open>thr\<close> is the Euclidean norm
  of the thrust vector, an absent thrust counting as the zero vector: it adds \<open>0\<close> to
  \<open>fuelSum\<close> and, for a threshold that is not negative, pushes no event. An absent
  reward adds \<open>0\<close> to \<open>rewardSum\<close>; the two sums are the sums of \<open>thr\<close> and of the
  rewards over the frames. The thrust \<open>(0.03, 0, 0)\<close> exceeds the threshold \<open>0.02\<close> and
  the thrust \<open>(0.01, 0, 0)\<close> does not.
\<close>

theorem thrust_event_iff_spike:
  "filter (\<lambda>ev. ev_type ev = Thrust) (res_events (episode_metrics tolR tolV thrustSpike frames))
     = map thrust_event (filter (\<lambda>i. thr (frames ! i) > thrustSpike) [0..<length frames])
   \<and> (idx < length frames \<longrightarrow>
        (thrust_event idx \<in> set (res_events (episode_metrics tolR tolV thrustSpike frames))
         \<longleftrightarrow> thr (frames ! idx) > thrustSpike))
   \<and> events (push_thrust thrustSpike idx f s)
       = events s @ (if thr f > thrustSpike then [thrust_event idx] else [])
   \<and> thr f = hypot3 (case f_thrust f of Some u \<Rightarrow> u | None \<Rightarrow> (0, 0, 0))
   \<and> hypot3 (x, y, z) = sqrt (x\<^sup>2 + y\<^sup>2 + z\<^sup>2)
   \<and> (f_thrust f = None \<longrightarrow>
        thr f = 0
        \<and> fuelSum (forEach_callback tolR tolV thrustSpike idx f s) = fuelSum s
        \<and> (0 \<le> thrustSpike \<longrightarrow> events (push_thrust thrustSpike idx f s) = events s))
   \<and> (f_reward f = None \<longrightarrow>
        rewardSum (forEach_callback tolR tolV thrustSpike idx f s) = rewardSum s)
   \<and> res_fuelSum (episode_metrics tolR tolV thrustSpike frames) = sum_list (map thr frames)
   \<and> res_rewardSum (episode_metrics tolR tolV thrustSpike frames)
       = sum_list (map reward_or_0 frames)
   \<and> (f_thrust f = Some (0.03, 0, 0) \<longrightarrow> thr f > 0.02)
   \<and> (f_thrust f = Some (0.01, 0, 0) \<longrightarrow> \<not> thr f > 0.02)"
proof -
  have res: "res_events (episode_metrics tolR tolV thrustSpike frames)
               = events (forEach_from tolR tolV thrustSpike 0 frames initial_state)"
    "res_fuelSum (episode_metrics tolR tolV thrustSpike frames)
               = fuelSum (forEach_from tolR tolV thrustSpike 0 frames initial_state)"
    "res_rewardSum (episode_metrics tolR tolV thrustSpike frames)
               = rewardSum (forEach_from tolR tolV thrustSpike 0 frames initial_state)"
    by (simp_all add: episode_metrics_def Let_def)
  have c1: "filter (\<lambda>ev. ev_type ev = Thrust)
              (res_events (episode_metrics tolR tolV thrustSpike frames))
     = map thrust_event (filter (\<lambda>i. thr (frames ! i) > thrustSpike) [0..<length frames])"
    unfolding res by (rule thrust_events_of_pass)
  have c2: "idx < length frames \<longrightarrow>
        (thrust_event idx \<in> set (res_events (episode_metrics tolR tolV thrustSpike frames))
         \<longleftrightarrow> thr (frames ! idx) > thrustSpike)"
    unfolding res by (simp add: thrust_event_in_events)
  have c3: "events (push_thrust thrustSpike idx f s)
       = events s @ (if thr f > thrustSpike then [thrust_event idx] else [])"
    by (rule push_thrust_events)
  have c4: "thr f = hypot3 (case f_thrust f of Some u \<Rightarrow> u | None \<Rightarrow> (0, 0, 0))"
    by (simp add: thr_def hypot3_def split: option.splits)
  have c5: "hypot3 (x, y, z) = sqrt (x\<^sup>2 + y\<^sup>2 + z\<^sup>2)"
    by (simp add: hypot3_def power2_eq_square)
  have c6: "f_thrust f = None \<longrightarrow>
        thr f = 0
        \<and> fuelSum (forEach_callback tolR tolV thrustSpike idx f s) = fuelSum s
        \<and> (0 \<le> thrustSpike \<longrightarrow> events (push_thrust thrustSpike idx f s) = events s)"
    by (simp add: thr_def callback_fields push_thrust_events)
  have c7: "f_reward f = None \<longrightarrow>
        rewardSum (forEach_callback tolR tolV thrustSpike idx f s) = rewardSum s"
    by (simp add: reward_or_0_def callback_fields)
  have c8: "res_fuelSum (episode_metrics tolR tolV thrustSpike frames) = sum_list (map thr frames)"
    "res_rewardSum (episode_metrics tolR tolV thrustSpike frames)
       = sum_list (map reward_or_0 frames)"
    unfolding res using pass_sums [of tolR tolV thrustSpike frames] by simp_all
  have c9: "f_thrust f = Some (0.03, 0, 0) \<longrightarrow> thr f > 0.02"
    "f_thrust f = Some (0.01, 0, 0) \<longrightarrow> \<not> thr f > 0.02"
    by (simp_all add: thr_def hypot3_axis)
  from c1 c2 c3 c4 c5 c6 c7 c8 c9 show ?thesis by blast
qed

theorem thrust_event_iff_spike_witness:
  "thr (burn_episode ! 0) > 0.02
   \<and> thrust_event 0 \<in> set (res_events (episode_metrics 0.05 0.05 0.02 burn_episode))
   \<and> \<not> thr (burn_episode ! 1) > 0.02
   \<and> thrust_event 1 \<notin> set (res_events (episode_metrics 0.05 0.05 0.02 burn_episode))
   \<and> thrust_event 2 \<notin> set (res_events (episode_metrics 0.05 0.05 0.02 burn_episode))"
proof -
  have t: "thr (burn_episode ! 0) > 0.02" "\<not> thr (burn_episode ! 1) > 0.02"
    "\<not> thr (burn_episode ! 2) > 0.02"
    by (simp_all add: burn_episode_def frame_burn_def frame_small_burn_def frame_on_target_def
          thr_def hypot3_axis)
  have l: "0 < length burn_episode" "1 < length burn_episode" "2 < length burn_episode"
    by (simp_all add: burn_episode_def)
  from thrust_event_iff_spike [of "0.05" "0.05" "0.02" burn_episode 0] l(1) t(1)
  have "thrust_event 0 \<in> set (res_events (episode_metrics 0.05 0.05 0.02 burn_episode))"
    by blast
  moreover from thrust_event_iff_spike [of "0.05" "0.05" "0.02" burn_episode 1] l(2) t(2)
  have "thrust_event 1 \<notin> set (res_events (episode_metrics 0.05 0.05 0.02 burn_episode))"
    by blast
  moreover from thrust_event_iff_spike [of "0.05" "0.05" "0.02" burn_episode 2] l(3) t(3)
  have "thrust_event 2 \<notin> set (res_events (episode_metrics 0.05 0.05 0.02 burn_episode))"
    by blast
  ultimately show ?thesis using t by blast
qed

section \<open>The one-sided position test\<close>

lemma hypot3_nonneg: "0 \<le> hypot3 u"
  by (cases u) (simp add: hypot3_def)

text \<open>
  The position error is the field \<open>pos_err\<close> of the frame when it is present, and only
  otherwise \<open>|r| - 1\<close>: a frame at half the target radius whose precomputed \<open>pos_err\<close>
  is \<open>0.5\<close> is out of tolerance although its radial distance is below the target radius
  and its tangential-velocity error is \<open>0\<close>.
\<close>

theorem below_target_flagged_out:
  "hypot3 (f_r frame_flagged) < 1
   \<and> \<bar>vtanErr frame_flagged\<bar> \<le> 0.05
   \<and> \<not> inTol 0.05 0.05 frame_flagged"
  by (simp add: frame_flagged_def hypot3_axis inTol_def posErr_def vtanErr_def)

text \<open>
  Claim C10, as amended. The classification compares the position error (the precomputed
  \<open>pos_err\<close> when present, else \<open>|r| - 1\<close>) with \<open>tolR\<close> without an absolute value.
  So for a tolerance \<open>tolR \<ge> 0\<close>, every frame with a negative position error, in
  particular every frame without precomputed \<open>pos_err\<close> whose radial distance is below
  the target radius \<open>1\<close>, however close to the origin, is in tolerance whenever
  \<open>|vtanErr| \<le> tolV\<close>, and the callback then increments \<open>inTolCount\<close> and
  \<open>tolStreak\<close>. Without precomputed \<open>pos_err\<close> the position error is at least \<open>-1\<close>.
\<close>

theorem inTol_one_sided:
  "(inTol tolR tolV f \<longleftrightarrow> posErr f \<le> tolR \<and> \<bar>vtanErr f\<bar> \<le> tolV)
   \<and> posErr f = (case f_pos_err f of Some pe \<Rightarrow> pe | None \<Rightarrow> hypot3 (f_r f) - 1)
   \<and> (0 \<le> tolR \<and> posErr f < 0 \<and> \<bar>vtanErr f\<bar> \<le> tolV \<longrightarrow> inTol tolR tolV f)
   \<and> (0 \<le> tolR \<and> f_pos_err f = None \<and> hypot3 (f_r f) < 1 \<and> \<bar>vtanErr f\<bar> \<le> tolV \<longrightarrow>
        inTol tolR tolV f
        \<and> inTolCount (forEach_callback tolR tolV thrustSpike idx f s) = inTolCount s + 1
        \<and> tolStreak (forEach_callback tolR tolV thrustSpike idx f s) = tolStreak s + 1)
   \<and> (f_pos_err f = None \<longrightarrow> - 1 \<le> posErr f)"
proof -
  have a: "inTol tolR tolV f \<longleftrightarrow> posErr f \<le> tolR \<and> \<bar>vtanErr f\<bar> \<le> tolV"
    by (rule inTol_def)
  have b: "posErr f = (case f_pos_err f of Some pe \<Rightarrow> pe | None \<Rightarrow> hypot3 (f_r f) - 1)"
    by (rule posErr_def)
  have c: "0 \<le> tolR \<and> posErr f < 0 \<and> \<bar>vtanErr f\<bar> \<le> tolV \<longrightarrow> inTol tolR tolV f"
    by (simp add: inTol_def)
  have d: "0 \<le> tolR \<and> f_pos_err f = None \<and> hypot3 (f_r f) < 1 \<and> \<bar>vtanErr f\<bar> \<le> tolV \<longrightarrow>
        inTol tolR tolV f
        \<and> inTolCount (forEach_callback tolR tolV thrustSpike idx f s) = inTolCount s + 1
        \<and> tolStreak (forEach_callback tolR tolV thrustSpike idx f s) = tolStreak s + 1"
    by (simp add: inTol_def posErr_def callback_fields)
  have e: "f_pos_err f = None \<longrightarrow> - 1 \<le> posErr f"
    using hypot3_nonneg [of "f_r f"] by (simp add: posErr_def)
  from a b c d e show ?thesis by blast
qed

theorem inTol_one_sided_witness:
  "(0::real) \<le> 0.05 \<and> f_pos_err frame_near_origin = None
   \<and> hypot3 (f_r frame_near_origin) < 1 \<and> \<bar>vtanErr frame_near_origin\<bar> \<le> 0.05
   \<and> inTol 0.05 0.05 frame_near_origin
   \<and> inTolCount (forEach_callback 0.05 0.05 0.02 0 frame_near_origin initial_state) = 1
   \<and> tolStreak (forEach_callback 0.05 0.05 0.02 0 frame_near_origin initial_state) = 1"
proof -
  have v: "vtanErr frame_near_origin = 0"
    by (simp add: frame_near_origin_def vtanErr_def stationKeepingErrors_def hypot3_axis Let_def)
  have h: "(0::real) \<le> 0.05" "f_pos_err frame_near_origin = None"
    "hypot3 (f_r frame_near_origin) < 1" "\<bar>vtanErr frame_near_origin\<bar> \<le> 0.05"
    by (simp_all add: v) (simp_all add: frame_near_origin_def hypot3_axis)
  have i: "inTolCount initial_state = 0" "tolStreak initial_state = 0"
    by (simp_all add: initial_state_def)
  from inTol_one_sided [of "0.05" "0.05" frame_near_origin "0.02" 0 initial_state] h
  have "inTol 0.05 0.05 frame_near_origin
        \<and> inTolCount (forEach_callback 0.05 0.05 0.02 0 frame_near_origin initial_state)
            = inTolCount initial_state + 1
        \<and> tolStreak (forEach_callback 0.05 0.05 0.02 0 frame_near_origin initial_state)
            = tolStreak initial_state + 1"
    by blast
  with h i show ?thesis by simp
qed

section \<open>Mean anomaly of a planet\<close>

lemma js_rem_scaled:
  assumes "y \<noteq> 0"
  shows "js_rem x y = y * (x / y - of_int (js_trunc (x / y)))"
  using assms by (simp add: js_rem_def algebra_simps)

lemma js_rem_nonneg:
  assumes y: "0 < y" and x: "0 \<le> x"
  shows "0 \<le> js_rem x y \<and> js_rem x y < y"
proof -
  let ?q = "x / y"
  have q: "0 \<le> ?q" using x y by simp
  then have t: "js_trunc ?q = \<lfloor>?q\<rfloor>" by (simp add: js_trunc_def)
  have lo: "0 \<le> ?q - of_int \<lfloor>?q\<rfloor>" by simp
  have hi: "?q - of_int \<lfloor>?q\<rfloor> < 1" by linarith
  have "0 \<le> y * (?q - of_int \<lfloor>?q\<rfloor>)" using y lo by simp
  moreover have "y * (?q - of_int \<lfloor>?q\<rfloor>) < y * 1"
    using y hi by (simp only: mult_less_cancel_left_pos)
  ultimately show ?thesis using y by (simp add: js_rem_scaled t)
qed

lemma js_rem_neg:
  assumes y: "0 < y" and x: "x < 0"
  shows "- y < js_rem x y \<and> js_rem x y \<le> 0"
proof -
  let ?q = "x / y"
  have q: "?q < 0" using x y by (simp add: divide_neg_pos)
  then have t: "js_trunc ?q = \<lceil>?q\<rceil>" by (simp add: js_trunc_def)
  have hi: "?q - of_int \<lceil>?q\<rceil> \<le> 0" by simp
  have lo: "- 1 < ?q - of_int \<lceil>?q\<rceil>" by linarith
  have "y * (?q - of_int \<lceil>?q\<rceil>) \<le> 0" using y hi by (simp add: mult_le_0_iff)
  moreover have "y * (- 1) < y * (?q - of_int \<lceil>?q\<rceil>)"
    using y lo by (simp only: mult_less_cancel_left_pos)
  ultimately show ?thesis using y by (simp add: js_rem_scaled t)
qed

lemma js_rem_small:
  assumes y: "0 < y" and x: "\<bar>x\<bar> < y"
  shows "js_rem x y = x"
proof -
  let ?q = "x / y"
  have "\<bar>?q\<bar> = \<bar>x\<bar> / y" using y by simp
  also have "\<dots> < 1" using x y by simp
  finally have q: "- 1 < ?q" "?q < 1" by linarith+
  have "js_trunc ?q = 0"
  proof (cases "0 \<le> ?q")
    case True
    with q have "\<lfloor>?q\<rfloor> = 0" by (intro floor_unique) simp_all
    with True show ?thesis by (simp add: js_trunc_def)
  next
    case False
    with q have "\<lceil>?q\<rceil> = 0" by (intro ceiling_unique) simp_all
    with False show ?thesis by (simp add: js_trunc_def)
  qed
  then show ?thesis by (simp add: js_rem_def)
qed

text \<open>
  The remainder keeps the sign of the dividend: a planet with \<open>M0 = -90\<close> degrees has
  at \<open>tDays = 0\<close> the mean anomaly \<open>-\<pi>/2\<close>, which is not in \<open>[0, 2\<pi>)\<close>.
\<close>

theorem mean_anomaly_negative:
  "0 < pl_a planet_behind
   \<and> Planets_M planet_behind 0 = - (pi / 2)
   \<and> \<not> 0 \<le> Planets_M planet_behind 0"
proof -
  have "js_rem (- (pi / 2)) (2 * pi) = - (pi / 2)"
    by (rule js_rem_small) simp_all
  then have M: "Planets_M planet_behind 0 = - (pi / 2)"
    by (simp add: Planets_M_def planet_behind_def planet_earth_def Planets_rad_def)
  have a: "0 < pl_a planet_behind" by (simp add: planet_behind_def planet_earth_def)
  have "\<not> 0 \<le> - (pi / 2)" using pi_gt_zero by linarith
  with M a show ?thesis by simp
qed

text \<open>
  Claim C6, as amended. For a planet with semi-major axis \<open>a > 0\<close>, the mean anomaly
  handed to the solver is the truncated remainder of \<open>M0 \<cdot> \<pi>/180 + n \<cdot> tDays\<close> by
  \<open>2\<pi>\<close>, with mean motion \<open>n = \<surd>(mu / a\<^sup>3) > 0\<close>. It differs from
  \<open>M0 \<cdot> \<pi>/180 + n \<cdot> tDays\<close> by a multiple of \<open>2\<pi>\<close>; it lies in \<open>[0, 2\<pi>)\<close> when that
  sum is not negative and in \<open>(-2\<pi>, 0]\<close> when it is negative.
\<close>

theorem mean_anomaly_truncated_remainder:
  assumes "0 < pl_a p"
  shows "Planets_M p tDays = js_rem (pl_M0 p * (pi / 180) + Planets_n p * tDays) (2 * pi)
   \<and> Planets_n p = sqrt (Planets_mu / pl_a p ^ 3)
   \<and> 0 < Planets_mu \<and> 0 < Planets_n p
   \<and> js_rem x y = x - y * of_int (js_trunc (x / y))
   \<and> (\<exists>k::int. Planets_M p tDays
         = pl_M0 p * (pi / 180) + Planets_n p * tDays + 2 * pi * of_int k)
   \<and> (0 \<le> pl_M0 p * (pi / 180) + Planets_n p * tDays \<longrightarrow>
        0 \<le> Planets_M p tDays \<and> Planets_M p tDays < 2 * pi)
   \<and> (pl_M0 p * (pi / 180) + Planets_n p * tDays < 0 \<longrightarrow>
        - (2 * pi) < Planets_M p tDays \<and> Planets_M p tDays \<le> 0)"
proof -
  let ?x = "pl_M0 p * (pi / 180) + Planets_n p * tDays"
  have M: "Planets_M p tDays = js_rem ?x (2 * pi)"
    by (simp add: Planets_M_def Planets_rad_def)
  have n: "Planets_n p = sqrt (Planets_mu / pl_a p ^ 3)" by (rule Planets_n_def)
  have mu: "0 < Planets_mu" by (simp add: Planets_mu_def)
  have npos: "0 < Planets_n p" using assms mu by (simp add: Planets_n_def)
  have rem: "js_rem x y = x - y * of_int (js_trunc (x / y))" by (rule js_rem_def)
  have "Planets_M p tDays = ?x + 2 * pi * of_int (- js_trunc (?x / (2 * pi)))"
    by (simp add: M js_rem_def)
  then have cong: "\<exists>k::int. Planets_M p tDays = ?x + 2 * pi * of_int k" ..
  have pos: "0 \<le> ?x \<longrightarrow> 0 \<le> Planets_M p tDays \<and> Planets_M p tDays < 2 * pi"
    unfolding M using js_rem_nonneg [of "2 * pi" ?x] by simp
  have neg: "?x < 0 \<longrightarrow> - (2 * pi) < Planets_M p tDays \<and> Planets_M p tDays \<le> 0"
    unfolding M using js_rem_neg [of "2 * pi" ?x] by simp
  from M n mu npos rem cong pos neg show ?thesis by blast
qed

theorem mean_anomaly_truncated_remainder_witness:
  "0 < pl_a planet_earth
   \<and> 0 \<le> pl_M0 planet_earth * (pi / 180) + Planets_n planet_earth * 10
   \<and> 0 \<le> Planets_M planet_earth 10 \<and> Planets_M planet_earth 10 < 2 * pi
   \<and> 0 < pl_a planet_behind
   \<and> pl_M0 planet_behind * (pi / 180) + Planets_n planet_behind * 0 < 0
   \<and> - (2 * pi) < Planets_M planet_behind 0 \<and> Planets_M planet_behind 0 \<le> 0"
proof -
  have a: "0 < pl_a planet_earth" by (simp add: planet_earth_def)
  have "0 \<le> Planets_n planet_earth" by (simp add: Planets_n_def Planets_mu_def planet_earth_def)
  then have x: "0 \<le> pl_M0 planet_earth * (pi / 180) + Planets_n planet_earth * 10"
    by (simp add: planet_earth_def)
  from mean_anomaly_truncated_remainder [OF a, of 10] x
  have pos: "0 \<le> Planets_M planet_earth 10 \<and> Planets_M planet_earth 10 < 2 * pi" by blast
  have b: "0 < pl_a planet_behind" by (simp add: planet_behind_def planet_earth_def)
  have y: "pl_M0 planet_behind * (pi / 180) + Planets_n planet_behind * 0 < 0"
    by (simp add: planet_behind_def planet_earth_def)
  from mean_anomaly_truncated_remainder [OF b, of 0] y
  have neg: "- (2 * pi) < Planets_M planet_behind 0 \<and> Planets_M planet_behind 0 \<le> 0" by blast
  from a x pos b y neg show ?thesis by blast
qed

section \<open>The eccentricity handed to the solver\<close>

text \<open>
  The clamp is \<open>Math.min(e * eccScale, 0.9)\<close>: with \<open>e = 0.25\<close> and the scale \<open>4\<close> the
  value handed to the solver is \<open>0.9\<close> itself, not a value strictly below it.
\<close>

theorem eVis_reaches_bound:
  "0 \<le> pl_e planet_eccentric
   \<and> Planets_eVis planet_eccentric 4 = 0.9
   \<and> \<not> Planets_eVis planet_eccentric 4 < 0.9"
  by (simp add: Planets_eVis_def planet_eccentric_def planet_earth_def)

text \<open>
  Claim C7, as amended. The eccentricity that \<open>Planets\<close> hands to
  \<open>elementsToPositionAU\<close>, and this to \<open>keplerE\<close>, is \<open>min (e \<cdot> eccScale) 0.9\<close>: the
  scaled value where that is at most \<open>0.9\<close>, and \<open>0.9\<close> otherwise; for \<open>e \<ge> 0\<close> and a
  scale that is not negative it lies in \<open>[0, 0.9]\<close>. The solver itself uses the
  eccentricity it is given in every one of its eight updates, without a clamp: the first
  update from the seed \<open>\<pi>/2\<close> yields \<open>\<pi>/2 + e\<close> for every \<open>e\<close>.
\<close>

theorem eVis_clamped_outside_solver:
  "Planets_eVis p eccScale = min (pl_e p * eccScale) 0.9
   \<and> Planets_eVis p eccScale \<le> 0.9
   \<and> (pl_e p * eccScale \<le> 0.9 \<longrightarrow> Planets_eVis p eccScale = pl_e p * eccScale)
   \<and> (0.9 \<le> pl_e p * eccScale \<longrightarrow> Planets_eVis p eccScale = 0.9)
   \<and> (0 \<le> pl_e p \<and> 0 \<le> eccScale \<longrightarrow> 0 \<le> Planets_eVis p eccScale \<and> Planets_eVis p eccScale < 1)
   \<and> el_e (Planets_elements p tDays eccScale) = Planets_eVis p eccScale
   \<and> Planets_r p tDays scaleAU eccScale =
       scale_vec scaleAU
         (position_from_E (Planets_elements p tDays eccScale)
            (keplerE (Planets_M p tDays) (Planets_eVis p eccScale)))
   \<and> elementsToPositionAU el = position_from_E el (keplerE (el_M el) (el_e el))
   \<and> keplerE M e = (keplerE_body M e ^^ 8) M
   \<and> keplerE_body M e E = E - (E - e * sin E - M) / (1 - e * cos E)
   \<and> keplerE_body (pi / 2) e (pi / 2) = pi / 2 + e"
proof -
  have a: "Planets_eVis p eccScale = min (pl_e p * eccScale) 0.9" by (rule Planets_eVis_def)
  have b: "Planets_eVis p eccScale \<le> 0.9" by (simp add: Planets_eVis_def)
  have c: "pl_e p * eccScale \<le> 0.9 \<longrightarrow> Planets_eVis p eccScale = pl_e p * eccScale"
    "0.9 \<le> pl_e p * eccScale \<longrightarrow> Planets_eVis p eccScale = 0.9"
    by (simp_all add: Planets_eVis_def)
  have d: "0 \<le> pl_e p \<and> 0 \<le> eccScale \<longrightarrow>
             0 \<le> Planets_eVis p eccScale \<and> Planets_eVis p eccScale < 1"
    by (simp add: Planets_eVis_def min_less_iff_disj)
  have e: "el_e (Planets_elements p tDays eccScale) = Planets_eVis p eccScale"
    by (simp add: Planets_elements_def)
  have f: "Planets_r p tDays scaleAU eccScale =
       scale_vec scaleAU
         (position_from_E (Planets_elements p tDays eccScale)
            (keplerE (Planets_M p tDays) (Planets_eVis p eccScale)))"
    by (simp add: Planets_r_def elementsToPositionAU_def Planets_elements_def)
  have g: "elementsToPositionAU el = position_from_E el (keplerE (el_M el) (el_e el))"
    by (rule elementsToPositionAU_def)
  have h: "keplerE M e = (keplerE_body M e ^^ 8) M"
    by (simp add: keplerE_def keplerE_loop_funpow del: keplerE_loop.simps)
  have i: "keplerE_body M e E = E - (E - e * sin E - M) / (1 - e * cos E)"
    by (simp add: keplerE_body_def keplerE_f_def keplerE_fp_def)
  have j: "keplerE_body (pi / 2) e (pi / 2) = pi / 2 + e"
    by (simp add: keplerE_body_def keplerE_f_def keplerE_fp_def)
  from a b c d e f g h i j show ?thesis by blast
qed

theorem eVis_clamped_outside_solver_witness:
  "(0::real) \<le> pl_e planet_earth \<and> (0::real) \<le> 1
   \<and> pl_e planet_earth * 1 \<le> 0.9
   \<and> Planets_eVis planet_earth 1 = pl_e planet_earth * 1
   \<and> 0 \<le> Planets_eVis planet_earth 1 \<and> Planets_eVis planet_earth 1 < 1"
proof -
  have h: "(0::real) \<le> pl_e planet_earth" "(0::real) \<le> 1" "pl_e planet_earth * 1 \<le> 0.9"
    by (simp_all add: planet_earth_def)
  from eVis_clamped_outside_solver [of planet_earth 1] h
  have "Planets_eVis planet_earth 1 = pl_e planet_earth * 1
        \<and> 0 \<le> Planets_eVis planet_earth 1 \<and> Planets_eVis planet_earth 1 < 1"
    by blast
  with h show ?thesis by blast
qed

end
